theory Spec2Isabelle
  imports Main "HOL-Library.Sublist" "HOL-Library.AList"
begin

section \<open>Python text operations used by the monitor\<close>

text \<open>
  Python \<open>str\<close> values are modelled as \<^typ>\<open>string\<close>, read as the UTF-8 encoding of
  the text (the monitor opens every text file with \<open>encoding='utf-8'\<close>). The ASCII
  characters the code looks for (\<open>#\<close>, \<open>|\<close>, \<open>,\<close>, line breaks) never occur inside a
  multi-byte sequence, so searching for them bytewise is exact.
\<close>

type_synonym path = string

text \<open>
  The characters \<open>str.strip()\<close> removes: every code point with \<open>str.isspace()\<close>, each
  written as its UTF-8 encoding (U+0009..U+000D, U+001C..U+0020, U+0085, U+00A0, U+1680,
  U+2000..U+200A, U+2028, U+2029, U+202F, U+205F, U+3000).
\<close>

definition ws_codes :: "string list" where
  "ws_codes =
    [[CHR 0x09], [CHR 0x0A], [CHR 0x0B], [CHR 0x0C], [CHR 0x0D],
     [CHR 0x1C], [CHR 0x1D], [CHR 0x1E], [CHR 0x1F], [CHR 0x20],
     [CHR 0xC2, CHR 0x85], [CHR 0xC2, CHR 0xA0],
     [CHR 0xE1, CHR 0x9A, CHR 0x80],
     [CHR 0xE2, CHR 0x80, CHR 0x80], [CHR 0xE2, CHR 0x80, CHR 0x81],
     [CHR 0xE2, CHR 0x80, CHR 0x82], [CHR 0xE2, CHR 0x80, CHR 0x83],
     [CHR 0xE2, CHR 0x80, CHR 0x84], [CHR 0xE2, CHR 0x80, CHR 0x85],
     [CHR 0xE2, CHR 0x80, CHR 0x86], [CHR 0xE2, CHR 0x80, CHR 0x87],
     [CHR 0xE2, CHR 0x80, CHR 0x88], [CHR 0xE2, CHR 0x80, CHR 0x89],
     [CHR 0xE2, CHR 0x80, CHR 0x8A], [CHR 0xE2, CHR 0x80, CHR 0xA8],
     [CHR 0xE2, CHR 0x80, CHR 0xA9], [CHR 0xE2, CHR 0x80, CHR 0xAF],
     [CHR 0xE2, CHR 0x81, CHR 0x9F], [CHR 0xE3, CHR 0x80, CHR 0x80]]"

definition ws_match :: "string list \<Rightarrow> string \<Rightarrow> string option" where
  "ws_match codes s = find (\<lambda>w. w \<noteq> [] \<and> prefix w s) codes"

function lstrip_with :: "string list \<Rightarrow> string \<Rightarrow> string" where
  "lstrip_with codes s =
     (case ws_match codes s of
        None \<Rightarrow> s
      | Some w \<Rightarrow> lstrip_with codes (drop (length w) s))"
  by pat_completeness auto
termination
proof (relation "measure (\<lambda>(codes, s). length s)")
  show "wf (measure (\<lambda>(codes, s). length s))" by simp
next
  fix codes :: "string list" and s w :: string
  assume "ws_match codes s = Some w"
  then have "w \<noteq> []" and "prefix w s"
    by (auto simp: ws_match_def find_Some_iff)
  then have "s \<noteq> []" and "0 < length w"
    by auto
  then show "((codes, drop (length w) s), (codes, s)) \<in> measure (\<lambda>(codes, s). length s)"
    by simp
qed

declare lstrip_with.simps [simp del]

definition py_lstrip :: "string \<Rightarrow> string" where
  "py_lstrip s = lstrip_with ws_codes s"

definition py_rstrip :: "string \<Rightarrow> string" where
  "py_rstrip s = rev (lstrip_with (map rev ws_codes) (rev s))"

text \<open>\<open>s.strip()\<close>\<close>

definition py_strip :: "string \<Rightarrow> string" where
  "py_strip s = py_lstrip (py_rstrip s)"

text \<open>\<open>s.split(sep)\<close> for a one-character separator: empty pieces are kept.\<close>

primrec split_where :: "(char \<Rightarrow> bool) \<Rightarrow> string \<Rightarrow> string list" where
  "split_where P [] = [[]]"
| "split_where P (c # cs) =
     (let r = split_where P cs
      in if P c then [] # r else (c # hd r) # tl r)"

definition py_split :: "char \<Rightarrow> string \<Rightarrow> string list" where
  "py_split sep s = split_where (\<lambda>c. c = sep) s"

text \<open>
  \<open>for line in f\<close> on a text file: the content cut at line breaks (\<open>\n\<close>, \<open>\r\<close>,
  \<open>\r\n\<close>). The readers below strip every line and drop the empty ones, so the line
  terminators are not kept and the empty piece between \<open>\r\<close> and \<open>\n\<close> is harmless.
\<close>

definition py_lines :: "string \<Rightarrow> string list" where
  "py_lines s = split_where (\<lambda>c. c = CHR 0x0A \<or> c = CHR 0x0D) s"

text \<open>\<open>s.startswith(t)\<close>, \<open>s.endswith(t)\<close> and \<open>t in s\<close>\<close>

definition startswith :: "string \<Rightarrow> string \<Rightarrow> bool" where
  "startswith s t = prefix t s"

definition endswith :: "string \<Rightarrow> string \<Rightarrow> bool" where
  "endswith s t = suffix t s"


section \<open>The monitor's state and its collaborators\<close>

text \<open>
  The theory follows \<open>Util/Self-evolution.py\<close>, class \<open>SelfEvolutionMonitor\<close>, and
  the two functions of \<open>Util/rules_loader.py\<close> it depends on for the mode and the
  applicable rules. Every method is a function of the same name that takes the state
  and returns its result together with the state it leaves; logging through
  \<open>self.logger\<close> is not modelled.
\<close>

text \<open>
  A file as the monitor sees it: its text, its modification time (milliseconds on the
  monitor's clock) and whether opening it for reading or for writing succeeds. A failed
  \<open>open\<close> raises in the source; every caller catches it, and the model returns the
  value the \<open>except\<close> branch returns.
\<close>

record fnode =
  content :: string
  mtime :: int
  readable :: bool
  writable :: bool

text \<open>
  What the monitor takes from libraries and from its environment: \<open>hashlib.md5(..).hexdigest()\<close>,
  \<open>datetime.now().isoformat()\<close> as a function of the clock, \<open>str(os.getpid())\<close>,
  \<open>str(self.project_root)\<close>, and the text edit of \<open>update_file_compliance\<close>
  (lines 752 to 810 of the source: a function of the path, the keys of the update
  dictionary, the date and the old text, which no property below depends on).
\<close>

record collab =
  md5_hex :: "string \<Rightarrow> string"
  isoformat :: "int \<Rightarrow> string"
  pid_text :: string
  project_root :: path
  fix_text :: "path \<Rightarrow> string list \<Rightarrow> int \<Rightarrow> string \<Rightarrow> string"

text \<open>The reasons \<open>check_path_conflicts\<close> returns, in the order of the source.\<close>

datatype conflict_reason =
    FileLocked string
  | DevPriority
  | NoUserActivity
  | ProdUserActive
  | UnknownModeUserActive
  | NoConflict

text \<open>
  The resolution texts of \<open>resolve_path_conflict\<close> and \<open>log_conflict\<close>: \<open>Pending\<close> is
  the text logged before a decision, \<open>ForcedWithLock\<close> the devP text "lock taken by force,
  self-evolution runs", \<open>LockFailedSkip\<close> "cannot take the file lock, skip processing" and
  \<open>ProdSkip\<close> "proD mode skips processing, respecting user activity". The last two are
  the texts that contain the marker "skip processing" the callers test for.
\<close>

datatype resolution = Pending | ForcedWithLock | LockFailedSkip | ProdSkip

fun skips :: "resolution \<Rightarrow> bool" where
  "skips LockFailedSkip = True"
| "skips ProdSkip = True"
| "skips _ = False"

text \<open>One line of the audit log \<open>Logs/path_conflicts.log\<close>.\<close>

record conflict_record =
  logged_at :: int
  subject_path :: path
  mode_at_decision :: string
  reason :: conflict_reason
  outcome :: resolution

text \<open>
  The state one monitor works on. \<open>clock\<close> is \<open>time.time()\<close> in milliseconds; only
  \<open>time.sleep\<close> advances it. \<open>variables\<close> is the dictionary of the rules loader,
  \<open>rule_files\<close> what \<open>get_rule_files_to_monitor\<close> returns. \<open>tree\<close> lists the regular
  files under the project root in the order \<open>os.walk\<close> meets them; the monitor's own
  bookkeeping files live in their own fields: \<open>lock_dir\<close> maps the name of a sentinel in
  \<open>.trae/.locks\<close> to the file, \<open>user_activity_file\<close> is the modification time of
  \<open>.trae/.user_activity\<close> if that file exists, \<open>conflict_log\<close> the audit log. The two
  caches are the dictionaries of the source; a cached value can be \<open>None\<close>.
  \<open>rules_dir_exists\<close> says whether the directory \<open>rules\<close> of the ledger exists: the
  monitor creates \<open>.trae\<close>, \<open>.trae/.locks\<close> and \<open>Logs\<close> when it starts, but not
  \<open>rules\<close>.
\<close>

record world =
  clock :: int
  variables :: "string \<rightharpoonup> string"
  rule_files :: "path list"
  tree :: "(path \<times> fnode) list"
  lock_dir :: "string \<rightharpoonup> fnode"
  user_activity_file :: "int option"
  conflict_log :: "conflict_record list"
  rules_hash_cache :: "path \<rightharpoonup> string option"
  project_files_hash_cache :: "path \<rightharpoonup> string option"
  rules_dir_exists :: bool

text \<open>Truth value of an \<open>Optional[str]\<close>: \<open>None\<close> and the empty string are false.\<close>

fun truthy :: "string option \<Rightarrow> bool" where
  "truthy None = False"
| "truthy (Some s) = (s \<noteq> [])"

section \<open>Mode policy\<close>

text \<open>\<open>RulesLoader.get_project_mod_config\<close>: the value \<open>mode,rule_var_name\<close> of \<open>PG_ProjectMod\<close>.\<close>

definition get_project_mod_config :: "world \<Rightarrow> (string \<times> string) list option" where
  "get_project_mod_config w =
     (let project_mod = variables w ''PG_ProjectMod''
      in if \<not> truthy project_mod then None
         else
           let parts = py_split CHR '','' (the project_mod)
           in if length parts < 2 then None
              else
                let mode = py_strip (parts ! 0);
                    rule_var_name = py_strip (parts ! 1);
                    rule_file = variables w rule_var_name
                in if \<not> truthy rule_file then None
                   else Some [(''mode'', mode),
                              (''rule_var_name'', rule_var_name),
                              (''rule_file'', the rule_file)])"

definition get_project_mode :: "world \<Rightarrow> string" where
  "get_project_mode w =
     (case get_project_mod_config w of
        None \<Rightarrow> ''devP''
      | Some config \<Rightarrow>
          (case map_of config ''mode'' of
             Some mode \<Rightarrow> mode
           | None \<Rightarrow> ''devP''))"

definition is_user_active :: "world \<Rightarrow> bool" where
  "is_user_active w =
     (case user_activity_file w of
        None \<Rightarrow> False
      | Some modified_time \<Rightarrow> clock w - modified_time < 300000)"

definition should_execute_evolution :: "world \<Rightarrow> bool" where
  "should_execute_evolution w =
     (let mode = get_project_mode w;
          user_active = is_user_active w
      in if mode = ''devP'' then True else \<not> user_active)"

section \<open>Lock manager\<close>

definition get_lock_file_path :: "collab \<Rightarrow> path \<Rightarrow> string" where
  "get_lock_file_path K file_path = md5_hex K file_path @ ''.lock''"

text \<open>
  The two lines written into a fresh sentinel: the labels "lock time: " and
  "process ID: " of the source (in UTF-8), the time and the process id.
\<close>

definition lock_text :: "collab \<Rightarrow> int \<Rightarrow> string" where
  "lock_text K t =
     [CHR 0xE9, CHR 0x94, CHR 0x81, CHR 0xE5, CHR 0xAE, CHR 0x9A, CHR 0xE6, CHR 0x97,
      CHR 0xB6, CHR 0xE9, CHR 0x97, CHR 0xB4, CHR 0x3A, CHR 0x20] @ isoformat K t @ [CHR 0x0A] @
     [CHR 0xE8, CHR 0xBF, CHR 0x9B, CHR 0xE7, CHR 0xA8, CHR 0x8B, CHR 0x49, CHR 0x44,
      CHR 0x3A, CHR 0x20] @ pid_text K @ [CHR 0x0A]"

definition sleep :: "int \<Rightarrow> world \<Rightarrow> world" where
  "sleep ms w = w\<lparr>clock := clock w + ms\<rparr>"

text \<open>
  \<open>acquire_file_lock\<close>: the loop runs while less than \<open>timeout\<close> seconds have passed
  since the call. \<open>open(lock_file, 'x')\<close> creates the sentinel if and only if it is
  absent; otherwise a sentinel older than 300 seconds is unlinked, and the loop sleeps
  0.1 second before it tries again. The result is the flag and the state reached.
  The model is that of one monitor running alone on a lock directory it can write:
  creating and unlinking a sentinel do not fail for lack of permission, and no other
  process touches the directory between two steps.
\<close>

function acquire_loop :: "collab \<Rightarrow> path \<Rightarrow> int \<Rightarrow> int \<Rightarrow> world \<Rightarrow> bool \<times> world" where
  "acquire_loop K file_path start_time timeout w =
     (if clock w - start_time < timeout * 1000 then
        (case lock_dir w (get_lock_file_path K file_path) of
           None \<Rightarrow>
             (True, w\<lparr>lock_dir := (lock_dir w)(get_lock_file_path K file_path \<mapsto>
                        \<lparr>content = lock_text K (clock w), mtime = clock w,
                         readable = True, writable = True\<rparr>)\<rparr>)
         | Some lock_file \<Rightarrow>
             acquire_loop K file_path start_time timeout
               (sleep 100
                 (if clock w - mtime lock_file > 300000
                  then w\<lparr>lock_dir := (lock_dir w)(get_lock_file_path K file_path := None)\<rparr>
                  else w)))
      else (False, w))"
  by pat_completeness auto
termination
  by (relation "measure (\<lambda>(K, file_path, start_time, timeout, w).
                    nat (start_time + timeout * 1000 - clock w))")
     (auto simp: sleep_def)

declare acquire_loop.simps [simp del]

definition acquire_file_lock :: "collab \<Rightarrow> path \<Rightarrow> int \<Rightarrow> world \<Rightarrow> bool \<times> world" where
  "acquire_file_lock K file_path timeout w = acquire_loop K file_path (clock w) timeout w"

definition release_file_lock :: "collab \<Rightarrow> path \<Rightarrow> world \<Rightarrow> world" where
  "release_file_lock K file_path w =
     w\<lparr>lock_dir := (lock_dir w)(get_lock_file_path K file_path := None)\<rparr>"

definition is_file_locked :: "collab \<Rightarrow> world \<Rightarrow> path \<Rightarrow> bool \<times> string option" where
  "is_file_locked K w file_path =
     (case lock_dir w (get_lock_file_path K file_path) of
        None \<Rightarrow> (False, None)
      | Some lock_file \<Rightarrow>
          if readable lock_file then (True, Some (py_strip (content lock_file)))
          else (False, None))"

section \<open>Conflict resolver\<close>

definition check_path_conflicts :: "collab \<Rightarrow> world \<Rightarrow> path \<Rightarrow> bool \<times> conflict_reason" where
  "check_path_conflicts K w file_path =
     (let project_mode = get_project_mode w;
          (is_locked, lock_info) = is_file_locked K w file_path
      in if is_locked \<and> truthy lock_info then (True, FileLocked (the lock_info))
         else
           let user_active = is_user_active w
           in if project_mode = ''devP'' then
                (if user_active then (False, DevPriority) else (False, NoUserActivity))
              else if project_mode = ''proD'' then
                (if user_active then (True, ProdUserActive) else (False, NoUserActivity))
              else if user_active then (True, UnknownModeUserActive)
              else (False, NoConflict))"

text \<open>
  \<open>log_conflict\<close> appends one record to the audit log. A failure to write the log is
  caught in the source and changes nothing else; the model takes the write to succeed.
\<close>

definition log_conflict :: "path \<Rightarrow> conflict_reason \<Rightarrow> resolution \<Rightarrow> world \<Rightarrow> world" where
  "log_conflict file_path conflict_reason res w =
     w\<lparr>conflict_log := conflict_log w @
         [\<lparr>logged_at = clock w, subject_path = file_path,
           mode_at_decision = get_project_mode w, reason = conflict_reason,
           outcome = res\<rparr>]\<rparr>"

definition resolve_path_conflict ::
  "collab \<Rightarrow> path \<Rightarrow> conflict_reason \<Rightarrow> world \<Rightarrow> resolution \<times> world" where
  "resolve_path_conflict K file_path conflict_reason w =
     (let project_mode = get_project_mode w;
          w1 = log_conflict file_path conflict_reason Pending w
      in if project_mode = ''devP'' then
           (let (acquired, w2) = acquire_file_lock K file_path 5 w1
            in if acquired then
                 (ForcedWithLock, log_conflict file_path conflict_reason ForcedWithLock w2)
               else
                 (LockFailedSkip, log_conflict file_path conflict_reason LockFailedSkip w2))
         else (ProdSkip, log_conflict file_path conflict_reason ProdSkip w1))"


section \<open>Change detector\<close>

definition calculate_file_hash :: "collab \<Rightarrow> world \<Rightarrow> path \<Rightarrow> string option" where
  "calculate_file_hash K w file_path =
     (case map_of (tree w) file_path of
        None \<Rightarrow> None
      | Some f \<Rightarrow> if readable f then Some (md5_hex K (content f)) else None)"

definition todo_file_path :: "collab \<Rightarrow> path" where
  "todo_file_path K = project_root K @ ''/rules/todo_Self-evolution_lists.txt''"

definition denied_dirs :: "string list" where
  "denied_dirs = [''.git'', ''__pycache__'', ''.idea'', ''node_modules'']"

definition default_extensions :: "string list" where
  "default_extensions =
     [''.py'', ''.txt'', ''.md'', ''.json'', ''.yaml'', ''.yml'', ''.ps1'', ''.sh'']"

text \<open>
  \<open>scan_project_files\<close>: \<open>os.walk\<close> from the project root, which does not descend
  into a directory of the deny-list and keeps the files whose name ends with one of the
  extensions. A path is a string with \<open>/\<close> between its components.
\<close>

definition walk_keeps :: "collab \<Rightarrow> path \<Rightarrow> bool" where
  "walk_keeps K p =
     (if startswith p (project_root K @ ''/'') then
        (let parts = py_split CHR ''/'' (drop (length (project_root K) + 1) p)
         in (\<forall>d \<in> set (butlast parts). d \<notin> set denied_dirs) \<and>
            (\<exists>ext \<in> set default_extensions. endswith (last parts) ext))
      else False)"

definition scan_project_files :: "collab \<Rightarrow> world \<Rightarrow> path list" where
  "scan_project_files K w = filter (walk_keeps K) (map fst (tree w))"

fun rule_files_loop :: "collab \<Rightarrow> path list \<Rightarrow> path list \<Rightarrow> world \<Rightarrow> path list \<times> world" where
  "rule_files_loop K [] changed_files w = (changed_files, w)"
| "rule_files_loop K (file_path # rest) changed_files w =
     (let current_hash = calculate_file_hash K w file_path
      in case rules_hash_cache w file_path of
           None \<Rightarrow>
             rule_files_loop K rest changed_files
               (if truthy current_hash
                then w\<lparr>rules_hash_cache := (rules_hash_cache w)(file_path \<mapsto> current_hash)\<rparr>
                else w)
         | Some cached \<Rightarrow>
             if current_hash \<noteq> cached then
               rule_files_loop K rest (changed_files @ [file_path])
                 (w\<lparr>rules_hash_cache := (rules_hash_cache w)(file_path \<mapsto> current_hash)\<rparr>)
             else rule_files_loop K rest changed_files w)"

definition check_rule_files_changes :: "collab \<Rightarrow> world \<Rightarrow> path list \<times> world" where
  "check_rule_files_changes K w = rule_files_loop K (rule_files w) [] w"

fun project_files_loop :: "collab \<Rightarrow> path list \<Rightarrow> path list \<Rightarrow> world \<Rightarrow> path list \<times> world" where
  "project_files_loop K [] changed_files w = (changed_files, w)"
| "project_files_loop K (file_path # rest) changed_files w =
     (let current_hash = calculate_file_hash K w file_path
      in case project_files_hash_cache w file_path of
           None \<Rightarrow>
             project_files_loop K rest changed_files
               (if truthy current_hash
                then w\<lparr>project_files_hash_cache :=
                         (project_files_hash_cache w)(file_path \<mapsto> current_hash)\<rparr>
                else w)
         | Some cached \<Rightarrow>
             if current_hash \<noteq> cached then
               project_files_loop K rest
                 (if file_path \<noteq> todo_file_path K then changed_files @ [file_path]
                  else changed_files)
                 (w\<lparr>project_files_hash_cache :=
                      (project_files_hash_cache w)(file_path \<mapsto> current_hash)\<rparr>)
             else project_files_loop K rest changed_files w)"

definition check_project_files_changes :: "collab \<Rightarrow> world \<Rightarrow> path list \<times> world" where
  "check_project_files_changes K w = project_files_loop K (scan_project_files K w) [] w"

section \<open>Todo ledger\<close>

text \<open>
  The header line "# pending file path|priority|time added" of the source, in UTF-8.
\<close>

definition todo_header :: string where
  "todo_header =
     ''# '' @
     [CHR 0xE5, CHR 0xBE, CHR 0x85, CHR 0xE5, CHR 0xA4, CHR 0x84, CHR 0xE7, CHR 0x90,
      CHR 0x86, CHR 0xE6, CHR 0x96, CHR 0x87, CHR 0xE4, CHR 0xBB, CHR 0xB6, CHR 0xE8,
      CHR 0xB7, CHR 0xAF, CHR 0xE5, CHR 0xBE, CHR 0x84] @ ''|'' @
     [CHR 0xE4, CHR 0xBC, CHR 0x98, CHR 0xE5, CHR 0x85, CHR 0x88, CHR 0xE7, CHR 0xBA,
      CHR 0xA7] @ ''|'' @
     [CHR 0xE6, CHR 0xB7, CHR 0xBB, CHR 0xE5, CHR 0x8A, CHR 0xA0, CHR 0xE6, CHR 0x97,
      CHR 0xB6, CHR 0xE9, CHR 0x97, CHR 0xB4]"

text \<open>
  The paths already in the ledger: of every line that is neither empty nor a comment
  after stripping, the stripped text before the first \<open>|\<close>.
\<close>

definition existing_files_of :: "string \<Rightarrow> string list" where
  "existing_files_of text =
     map (\<lambda>line. py_strip (hd (py_split CHR ''|'' line)))
       (filter (\<lambda>line. line \<noteq> [] \<and> \<not> startswith line ''#'')
          (map py_strip (py_lines text)))"

definition todo_line :: "collab \<Rightarrow> world \<Rightarrow> path \<Rightarrow> string" where
  "todo_line K w file_path =
     (let project_mode = get_project_mode w;
          priority = (if project_mode = ''devP'' then ''HIGH'' else ''LOW'')
      in file_path @ ''|'' @ priority @ ''|'' @ isoformat K (clock w))"

text \<open>
  The loop of \<open>add_files_to_todo\<close> over the files. The list of skipped files, which the
  source only writes to its log, is not kept.
\<close>

fun todo_loop :: "collab \<Rightarrow> string list \<Rightarrow> path list \<Rightarrow> string list \<Rightarrow> world \<Rightarrow> string list \<times> world" where
  "todo_loop K existing_files [] files_to_add w = (files_to_add, w)"
| "todo_loop K existing_files (file_path # rest) files_to_add w =
     (let (has_conflict, conflict_reason) = check_path_conflicts K w file_path
      in if file_path \<in> set existing_files then todo_loop K existing_files rest files_to_add w
         else if has_conflict then
           (let (res, w1) = resolve_path_conflict K file_path conflict_reason w
            in if skips res then todo_loop K existing_files rest files_to_add w1
               else todo_loop K existing_files rest (files_to_add @ [todo_line K w1 file_path]) w1)
         else todo_loop K existing_files rest (files_to_add @ [todo_line K w file_path]) w)"

text \<open>
  \<open>open(path, 'a')\<close> followed by writes, for the ledger file: the text is added at the
  end of the file. An absent file is created when its directory \<open>rules\<close> exists;
  \<open>None\<close> when the file cannot be opened for writing (no permission, or no directory
  to create it in).
\<close>

definition append_text :: "path \<Rightarrow> string \<Rightarrow> world \<Rightarrow> world option" where
  "append_text p text w =
     (case map_of (tree w) p of
        None \<Rightarrow>
          if rules_dir_exists w then
            Some (w\<lparr>tree := tree w @
                    [(p, \<lparr>content = text, mtime = clock w, readable = True, writable = True\<rparr>)]\<rparr>)
          else None
      | Some f \<Rightarrow>
          if writable f then
            Some (w\<lparr>tree := map (\<lambda>(q, g). if q = p
                                  then (q, g\<lparr>content := content g @ text, mtime := clock w\<rparr>)
                                  else (q, g)) (tree w)\<rparr>)
          else None)"

definition add_files_to_todo :: "collab \<Rightarrow> path list \<Rightarrow> world \<Rightarrow> world" where
  "add_files_to_todo K files w =
     (if files = [] then w
      else
        case (case map_of (tree w) (todo_file_path K) of
                None \<Rightarrow> Some []
              | Some f \<Rightarrow> if readable f then Some (existing_files_of (content f)) else None) of
          None \<Rightarrow> w
        | Some existing_files \<Rightarrow>
            (let (files_to_add, w1) = todo_loop K existing_files files [] w
             in if files_to_add \<noteq> [] then
                  (case append_text (todo_file_path K)
                          (todo_header @ [CHR 0x0A] @
                           concat (map (\<lambda>item. item @ [CHR 0x0A]) files_to_add)) w1 of
                     None \<Rightarrow> w1
                   | Some w2 \<Rightarrow> w2)
                else w1))"


text \<open>
  The text of the ledger file, empty when the file does not exist: what the properties
  of the ledger are stated on.
\<close>

definition ledger_text :: "collab \<Rightarrow> world \<Rightarrow> string" where
  "ledger_text K w =
     (case map_of (tree w) (todo_file_path K) of None \<Rightarrow> [] | Some f \<Rightarrow> content f)"

section \<open>Rule engine\<close>

text \<open>\<open>Path.suffix\<close>: the last component from its last dot on, unless that dot is its first or last character.\<close>

definition py_suffix :: "path \<Rightarrow> string" where
  "py_suffix p =
     (let name = last (py_split CHR ''/'' p);
          i = length name - 1 - length (takeWhile (\<lambda>c. c \<noteq> CHR ''.'') (rev name))
      in if CHR ''.'' \<in> set name \<and> 0 < i \<and> i < length name - 1 then drop i name else [])"

text \<open>The keys of the dictionary \<open>RulesLoader.get_applicable_rules_for_file\<close> returns for every file.\<close>

definition get_applicable_rules_for_file :: "path \<Rightarrow> string list" where
  "get_applicable_rules_for_file file_path = [''encoding'', ''header_comment'', ''other_rules'']"

datatype issue =
    MissingHeaderComment
  | MissingEncodingDeclaration
  | FileDoesNotExist path
  | CheckFailed
  | ConflictIssue conflict_reason

text \<open>
  A compliance verdict: the flag, the issues, and the keys of the update dictionary.
\<close>

type_synonym compliance = "bool \<times> issue list \<times> string list"

definition dict_add :: "string \<Rightarrow> string list \<Rightarrow> string list" where
  "dict_add k d = (if k \<in> set d then d else d @ [k])"

definition apply_rule :: "path \<Rightarrow> string \<Rightarrow> string \<Rightarrow> compliance \<Rightarrow> compliance" where
  "apply_rule file_path file_content rule_name v =
     (let v1 = (if rule_name = ''header_comment'' \<and>
                   \<not> startswith (py_strip file_content) ''#'' \<and>
                   py_suffix file_path \<in> set [''.py'', ''.sh'', ''.ps1'']
                then (False, fst (snd v) @ [MissingHeaderComment],
                      dict_add ''header_comment'' (snd (snd v)))
                else v)
      in if rule_name = ''encoding_declaration'' \<and> py_suffix file_path = ''.py'' \<and>
            \<not> sublist ''# -*- coding: utf-8 -*-'' file_content
         then (False, fst (snd v1) @ [MissingEncodingDeclaration],
               dict_add ''encoding_declaration'' (snd (snd v1)))
         else v1)"

definition check_file_compliance :: "collab \<Rightarrow> world \<Rightarrow> path \<Rightarrow> compliance" where
  "check_file_compliance K w file_path =
     (case map_of (tree w) file_path of
        None \<Rightarrow> (False, [FileDoesNotExist file_path], [])
      | Some f \<Rightarrow>
          (let applicable_rules = get_applicable_rules_for_file file_path
           in if applicable_rules = [] then (True, [], [])
              else if \<not> readable f then (False, [CheckFailed], [])
              else fold (apply_rule file_path (content f)) applicable_rules (True, [], [])))"

text \<open>
  \<open>check_project_files_compliance\<close>: the result dictionary is an association list;
  storing under a key that is present replaces the value in place, as a Python
  dictionary does.
\<close>

fun compliance_loop ::
  "collab \<Rightarrow> path list \<Rightarrow> (path \<times> compliance) list \<Rightarrow> world \<Rightarrow> (path \<times> compliance) list \<times> world" where
  "compliance_loop K [] results w = (results, w)"
| "compliance_loop K (file_path # rest) results w =
     (let (has_conflict, conflict_reason) = check_path_conflicts K w file_path
      in if has_conflict then
           (let (res, w1) = resolve_path_conflict K file_path conflict_reason w
            in if skips res then
                 compliance_loop K rest
                   (AList.update file_path (False, [ConflictIssue conflict_reason], []) results) w1
               else
                 compliance_loop K rest
                   (AList.update file_path (check_file_compliance K w1 file_path) results) w1)
         else
           compliance_loop K rest
             (AList.update file_path (check_file_compliance K w file_path) results) w)"

definition check_project_files_compliance ::
  "collab \<Rightarrow> path list \<Rightarrow> world \<Rightarrow> (path \<times> compliance) list \<times> world" where
  "check_project_files_compliance K files w = compliance_loop K files [] w"

text \<open>
  \<open>open(path, 'w')\<close> and a write: \<open>None\<close> when the file cannot be opened for writing.
  Its only caller has just read the file, so the file exists when it is written.
\<close>

definition write_text :: "path \<Rightarrow> string \<Rightarrow> world \<Rightarrow> world option" where
  "write_text p text w =
     (case map_of (tree w) p of
        None \<Rightarrow>
          Some (w\<lparr>tree := tree w @
                  [(p, \<lparr>content = text, mtime = clock w, readable = True, writable = True\<rparr>)]\<rparr>)
      | Some f \<Rightarrow>
          if writable f then
            Some (w\<lparr>tree := map (\<lambda>(q, g). if q = p
                                  then (q, g\<lparr>content := text, mtime := clock w\<rparr>)
                                  else (q, g)) (tree w)\<rparr>)
          else None)"

text \<open>
  \<open>update_file_compliance\<close>: under the file's lock, read the text, edit it, write it back
  when it differs. Every path through the source releases the lock once it was taken.
\<close>

definition update_file_compliance :: "collab \<Rightarrow> path \<Rightarrow> string list \<Rightarrow> world \<Rightarrow> bool \<times> world" where
  "update_file_compliance K file_path update_info w =
     (let (acquired, w1) = acquire_file_lock K file_path 5 w
      in if \<not> acquired then (False, w1)
         else
           case map_of (tree w1) file_path of
             None \<Rightarrow> (False, release_file_lock K file_path w1)
           | Some f \<Rightarrow>
               if \<not> readable f then (False, release_file_lock K file_path w1)
               else
                 (let file_content = content f;
                      updated_content = fix_text K file_path update_info (clock w1) file_content
                  in if updated_content \<noteq> file_content then
                       (case write_text file_path updated_content w1 of
                          None \<Rightarrow> (False, release_file_lock K file_path w1)
                        | Some w2 \<Rightarrow> (True, release_file_lock K file_path w2))
                     else (True, release_file_lock K file_path w1)))"

fun update_loop :: "collab \<Rightarrow> (path \<times> compliance) list \<Rightarrow> nat \<Rightarrow> world \<Rightarrow> nat \<times> world" where
  "update_loop K [] updated_files w = (updated_files, w)"
| "update_loop K ((file_path, is_compliant, issues, update_info) # rest) updated_files w =
     (if \<not> is_compliant \<and> issues \<noteq> [] \<and> update_info \<noteq> [] then
        (let (updated, w1) = update_file_compliance K file_path update_info w
         in if updated then
              (let new_hash = calculate_file_hash K w1 file_path
               in update_loop K rest (updated_files + 1)
                    (if truthy new_hash
                     then w1\<lparr>project_files_hash_cache :=
                               (project_files_hash_cache w1)(file_path \<mapsto> new_hash)\<rparr>
                     else w1))
            else update_loop K rest updated_files w1)
      else update_loop K rest updated_files w)"

definition process_files_for_compliance ::
  "collab \<Rightarrow> path list \<Rightarrow> world \<Rightarrow> (nat \<times> nat) \<times> world" where
  "process_files_for_compliance K files w =
     (let (compliance_results, w1) = check_project_files_compliance K files w;
          total_files = length compliance_results;
          (updated_files, w2) = update_loop K compliance_results 0 w1
      in ((total_files, updated_files), w2))"

section \<open>Remediation scheduler\<close>

text \<open>The files one cycle hands on, from the two lists of changed files.\<close>

definition files_to_process :: "collab \<Rightarrow> path list \<Rightarrow> path list \<Rightarrow> world \<Rightarrow> path list" where
  "files_to_process K changed_rule_files changed_project_files w =
     (if changed_rule_files \<noteq> [] then scan_project_files K w
      else if changed_project_files \<noteq> [] then changed_project_files
      else [])"

text \<open>
  Steps 1 and 2 of \<open>run_monitor_cycle\<close> on the files handed on: check and update, then
  the ledger.
\<close>

definition remediate :: "collab \<Rightarrow> path list \<Rightarrow> world \<Rightarrow> world" where
  "remediate K files w =
     (let ((total_checked, total_updated), w1) = process_files_for_compliance K files w
      in if total_updated < total_checked then add_files_to_todo K files w1 else w1)"

definition run_monitor_cycle :: "collab \<Rightarrow> world \<Rightarrow> world" where
  "run_monitor_cycle K w =
     (let (changed_rule_files, w1) = check_rule_files_changes K w;
          (changed_project_files, w2) = check_project_files_changes K w1;
          files = files_to_process K changed_rule_files changed_project_files w2
      in if files \<noteq> [] \<and> should_execute_evolution w2 then remediate K files w2 else w2)"


section \<open>Example states\<close>

text \<open>
  Concrete collaborators and states on which the properties below are exercised: the hash
  is the identity, the clock reads 1000 seconds, the project root is \<open>/r\<close>.
\<close>

definition demo_collab :: collab where
  "demo_collab =
     \<lparr>md5_hex = (\<lambda>s. s), isoformat = (\<lambda>t. ''2024-01-01T00:00:00''), pid_text = ''1'',
      project_root = ''/r'', fix_text = (\<lambda>p u t c. ''# header'' @ [CHR 0x0A] @ c)\<rparr>"

definition base_world :: world where
  "base_world =
     \<lparr>clock = 1000000, variables = Map.empty, rule_files = [], tree = [],
      lock_dir = Map.empty, user_activity_file = None, conflict_log = [],
      rules_hash_cache = Map.empty, project_files_hash_cache = Map.empty,
      rules_dir_exists = True\<rparr>"

definition dev_vars :: "string \<rightharpoonup> string" where
  "dev_vars = [''PG_ProjectMod'' \<mapsto> ''devP,PG_RuleFileName'', ''PG_RuleFileName'' \<mapsto> ''rules.md'']"

definition prod_vars :: "string \<rightharpoonup> string" where
  "prod_vars = [''PG_ProjectMod'' \<mapsto> ''proD,PG_RuleFileName'', ''PG_RuleFileName'' \<mapsto> ''rules.md'']"

text \<open>No \<open>PG_ProjectMod\<close> variable at all, and the activity file touched 10 seconds ago.\<close>

definition missing_mode_world :: world where
  "missing_mode_world = base_world\<lparr>user_activity_file := Some 990000\<rparr>"

text \<open>Mode \<open>proD\<close>, the activity file touched 10 seconds ago, no lock held.\<close>

definition prod_active_world :: world where
  "prod_active_world = base_world\<lparr>variables := prod_vars, user_activity_file := Some 990000\<rparr>"

text \<open>A sentinel for \<open>/r/c.py\<close> that is 400 seconds old.\<close>

definition stale_world :: world where
  "stale_world =
     base_world\<lparr>lock_dir := [get_lock_file_path demo_collab ''/r/c.py'' \<mapsto>
        \<lparr>content = ''held'', mtime = 600000, readable = True, writable = True\<rparr>]\<rparr>"

text \<open>Mode \<open>devP\<close> and a sentinel for \<open>/r/c.py\<close> that is 400 seconds old.\<close>

definition dev_stale_world :: world where
  "dev_stale_world = stale_world\<lparr>variables := dev_vars\<rparr>"

text \<open>Mode \<open>proD\<close>, no user activity, and a sentinel for \<open>/r/e.py\<close> that holds a blank line only.\<close>

definition empty_sentinel_world :: world where
  "empty_sentinel_world =
     base_world\<lparr>variables := prod_vars,
        lock_dir := [get_lock_file_path demo_collab ''/r/e.py'' \<mapsto>
          \<lparr>content = [CHR 0x20, CHR 0x0A], mtime = 999000, readable = True, writable = True\<rparr>]\<rparr>"

text \<open>Mode \<open>devP\<close>, nothing else.\<close>

definition dev_world :: world where
  "dev_world = base_world\<lparr>variables := dev_vars\<rparr>"

text \<open>
  Two tracked project files whose cached hashes differ from their content; the first
  cannot be read.
\<close>

definition unreadable_world :: world where
  "unreadable_world =
     base_world\<lparr>tree :=
        [(''/r/a.py'', \<lparr>content = ''print(1)'', mtime = 0, readable = False, writable = True\<rparr>),
         (''/r/b.py'', \<lparr>content = ''x = 2'', mtime = 0, readable = True, writable = True\<rparr>)],
       project_files_hash_cache := [''/r/a.py'' \<mapsto> Some ''print(1)'', ''/r/b.py'' \<mapsto> Some ''x = 1'']\<rparr>"

text \<open>
  One rule file whose content differs from its cached hash, one unchanged project file,
  one file under \<open>.git\<close> and one file with an extension that is not scanned.
\<close>

definition rule_changed_world :: world where
  "rule_changed_world =
     dev_world\<lparr>rule_files := [''/r/rules/r.md''],
       tree :=
        [(''/r/rules/r.md'', \<lparr>content = ''new rule'', mtime = 0, readable = True, writable = True\<rparr>),
         (''/r/a.py'', \<lparr>content = ''print(1)'', mtime = 0, readable = True, writable = True\<rparr>),
         (''/r/.git/hook.py'', \<lparr>content = ''x'', mtime = 0, readable = True, writable = True\<rparr>),
         (''/r/notes.log'', \<lparr>content = ''x'', mtime = 0, readable = True, writable = True\<rparr>)],
       rules_hash_cache := [''/r/rules/r.md'' \<mapsto> Some ''old rule''],
       project_files_hash_cache :=
         [''/r/rules/r.md'' \<mapsto> Some ''new rule'', ''/r/a.py'' \<mapsto> Some ''print(1)'']\<rparr>"

text \<open>
  Mode \<open>devP\<close>, no lock, no user activity, two changed project files without a header
  comment; the second is read-only, so its fix cannot be written.
\<close>

definition cycle_world :: world where
  "cycle_world =
     dev_world\<lparr>tree :=
        [(''/r/a.py'', \<lparr>content = ''print(1)'', mtime = 0, readable = True, writable = True\<rparr>),
         (''/r/b.py'', \<lparr>content = ''print(2)'', mtime = 0, readable = True, writable = False\<rparr>)],
       project_files_hash_cache := [''/r/a.py'' \<mapsto> Some ''old'', ''/r/b.py'' \<mapsto> Some ''old'']\<rparr>"

text \<open>Scenario D of the specification: the ledger holds the header and one entry, for \<open>/r/d.py\<close>.\<close>

definition ledger_world :: world where
  "ledger_world =
     dev_world\<lparr>tree :=
        [(todo_file_path demo_collab,
          \<lparr>content = todo_header @ [CHR 0x0A] @ ''/r/d.py|HIGH|2024-01-01T00:00:00'' @ [CHR 0x0A],
           mtime = 0, readable = True, writable = True\<rparr>)]\<rparr>"

text \<open>
  Mode \<open>devP\<close>, the stale sentinel for \<open>/r/c.py\<close>, and the file \<open>/r/c.py\<close> itself,
  without a header comment.
\<close>

definition dev_stale_file_world :: world where
  "dev_stale_file_world =
     dev_stale_world\<lparr>tree :=
        [(''/r/c.py'', \<lparr>content = ''print(1)'', mtime = 0, readable = True, writable = True\<rparr>)]\<rparr>"

text \<open>
  Mode \<open>proD\<close>, no user activity, and a fresh sentinel for \<open>/r/l.py\<close> written by
  another holder.
\<close>

definition prod_locked_world :: world where
  "prod_locked_world =
     base_world\<lparr>variables := prod_vars,
        lock_dir := [get_lock_file_path demo_collab ''/r/l.py'' \<mapsto>
          \<lparr>content = ''held'', mtime = 999000, readable = True, writable = True\<rparr>]\<rparr>"

section \<open>Frame lemmas\<close>

lemma get_project_mode_cong:
  "variables w' = variables w \<Longrightarrow> get_project_mode w' = get_project_mode w"
  by (simp add: get_project_mode_def get_project_mod_config_def Let_def)

lemma acquire_loop_frame:
  "acquire_loop K p st t w = (ok, w') \<Longrightarrow>
     variables w' = variables w \<and> tree w' = tree w \<and> conflict_log w' = conflict_log w \<and>
     user_activity_file w' = user_activity_file w \<and> rule_files w' = rule_files w \<and>
     rules_hash_cache w' = rules_hash_cache w \<and>
     project_files_hash_cache w' = project_files_hash_cache w \<and>
     rules_dir_exists w' = rules_dir_exists w"
proof (induction K p st t w arbitrary: ok w' rule: acquire_loop.induct)
  case (1 K file_path start_time timeout w)
  show ?case
  proof (cases "clock w - start_time < timeout * 1000")
    case False
    with "1.prems" show ?thesis by (simp add: acquire_loop.simps)
  next
    case True
    show ?thesis
    proof (cases "lock_dir w (get_lock_file_path K file_path)")
      case None
      with True "1.prems" show ?thesis by (auto simp: acquire_loop.simps)
    next
      case (Some lf)
      let ?w1 = "sleep 100 (if clock w - mtime lf > 300000
                  then w\<lparr>lock_dir := (lock_dir w)(get_lock_file_path K file_path := None)\<rparr>
                  else w)"
      from True Some "1.prems" have "acquire_loop K file_path start_time timeout ?w1 = (ok, w')"
        by (simp add: acquire_loop.simps)
      from "1.IH"[OF True Some this] show ?thesis by (simp add: sleep_def)
    qed
  qed
qed

lemma demo_modes:
  "get_project_mod_config missing_mode_world = None"
  "get_project_mode missing_mode_world = ''devP''"
  "get_project_mode prod_active_world = ''proD''"
  "is_user_active missing_mode_world"
  "is_user_active prod_active_world"
  by (simp_all add: get_project_mode_def get_project_mod_config_def missing_mode_world_def
        prod_active_world_def base_world_def prod_vars_def is_user_active_def py_split_def
        py_strip_def py_lstrip_def py_rstrip_def lstrip_with.simps ws_match_def ws_codes_def)

section \<open>Mode policy: the decision to act\<close>

text \<open>
  Claim C2, as the code has it. The decision of \<open>should_execute_evolution\<close> depends on
  the state only through the mode and the activity flag: under \<open>devP\<close> it is always to
  act, under every other mode value (\<open>proD\<close> or an unknown one) it is to act exactly
  when the user is not active. A missing or unparseable mode source is not treated as
  \<open>proD\<close>: \<open>get_project_mode\<close> then answers \<open>devP\<close>, its documented default.
\<close>

theorem should_execute_evolution_policy:
  "(get_project_mode w = ''devP'' \<longrightarrow> should_execute_evolution w) \<and>
   (get_project_mode w \<noteq> ''devP'' \<longrightarrow> should_execute_evolution w = (\<not> is_user_active w)) \<and>
   (get_project_mode w = get_project_mode w' \<and> is_user_active w = is_user_active w'
      \<longrightarrow> should_execute_evolution w = should_execute_evolution w') \<and>
   (get_project_mod_config w = None \<longrightarrow> get_project_mode w = ''devP'')"
  by (simp add: should_execute_evolution_def get_project_mode_def)

text \<open>
  The policy at two states: with no mode source and an active user the monitor acts, in
  mode \<open>proD\<close> with an active user it does not.
\<close>

theorem should_execute_evolution_policy_witness:
  "get_project_mod_config missing_mode_world = None \<and>
   should_execute_evolution missing_mode_world \<and>
   get_project_mode prod_active_world \<noteq> ''devP'' \<and>
   is_user_active prod_active_world \<and>
   \<not> should_execute_evolution prod_active_world"
proof -
  have a: "get_project_mod_config missing_mode_world = None"
    by (rule demo_modes)
  have b: "get_project_mode prod_active_world \<noteq> ''devP''"
    by (simp add: demo_modes)
  have c: "is_user_active prod_active_world"
    by (rule demo_modes)
  from a should_execute_evolution_policy [of missing_mode_world missing_mode_world]
  have d: "should_execute_evolution missing_mode_world" by blast
  from b c should_execute_evolution_policy [of prod_active_world prod_active_world]
  have e: "\<not> should_execute_evolution prod_active_world" by blast
  from a b c d e show ?thesis by blast
qed

text \<open>
  Claim C2 as stated fails: it treats a missing mode like \<open>proD\<close>. With the same active
  user, the state without a mode source decides to act and the \<open>proD\<close> state decides
  not to.
\<close>

theorem missing_mode_not_treated_as_prod:
  "get_project_mod_config missing_mode_world = None \<and>
   get_project_mode prod_active_world = ''proD'' \<and>
   is_user_active missing_mode_world = is_user_active prod_active_world \<and>
   should_execute_evolution missing_mode_world \<noteq> should_execute_evolution prod_active_world"
  by (simp add: demo_modes should_execute_evolution_def)

section \<open>Lock manager: a stale sentinel is replaced\<close>

lemma acquire_stale_sentinel:
  assumes "lock_dir w (get_lock_file_path K p) = Some f"
      and "clock w - mtime f > 300000"
      and "1 \<le> timeout"
  shows "acquire_file_lock K p timeout w =
     (True, w\<lparr>clock := clock w + 100,
               lock_dir := (lock_dir w)(get_lock_file_path K p \<mapsto>
                  \<lparr>content = lock_text K (clock w + 100), mtime = clock w + 100,
                   readable = True, writable = True\<rparr>)\<rparr>)"
proof -
  let ?w1 = "sleep 100 (w\<lparr>lock_dir := (lock_dir w)(get_lock_file_path K p := None)\<rparr>)"
  have a: "acquire_loop K p (clock w) timeout w = acquire_loop K p (clock w) timeout ?w1"
    using assms by (subst acquire_loop.simps) simp
  have b: "acquire_loop K p (clock w) timeout ?w1 =
     (True, ?w1\<lparr>lock_dir := (lock_dir ?w1)(get_lock_file_path K p \<mapsto>
                        \<lparr>content = lock_text K (clock ?w1), mtime = clock ?w1,
                         readable = True, writable = True\<rparr>)\<rparr>)"
    using assms by (subst acquire_loop.simps) (simp add: sleep_def)
  show ?thesis
    unfolding acquire_file_lock_def a b by (simp add: sleep_def)
qed

text \<open>
  Claim C6. When the sentinel of a path exists and is older than 300 seconds, a call of
  \<open>acquire_file_lock\<close> with a timeout of at least one second unlinks it in its first
  round, sleeps 0.1 second, creates a fresh sentinel in its second round and returns
  true. The state it leaves differs from the one it found in the clock and in that
  sentinel only.
\<close>

theorem acquire_file_lock_heals_stale:
  assumes "lock_dir w (get_lock_file_path K p) = Some f"
      and "clock w - mtime f > 300000"
      and "1 \<le> timeout"
  shows "acquire_file_lock K p timeout w =
     (True, w\<lparr>clock := clock w + 100,
               lock_dir := (lock_dir w)(get_lock_file_path K p \<mapsto>
                  \<lparr>content = lock_text K (clock w + 100), mtime = clock w + 100,
                   readable = True, writable = True\<rparr>)\<rparr>)"
  using assms by (rule acquire_stale_sentinel)

text \<open>
  Scenario C of the specification: the sentinel of \<open>/r/c.py\<close> is 400 seconds old; the
  call with the default timeout of 5 seconds succeeds and leaves a sentinel dated at the
  time of its second round.
\<close>

theorem acquire_file_lock_heals_stale_witness:
  "fst (acquire_file_lock demo_collab ''/r/c.py'' 5 stale_world) \<and>
   map_option mtime (lock_dir (snd (acquire_file_lock demo_collab ''/r/c.py'' 5 stale_world))
      (get_lock_file_path demo_collab ''/r/c.py'')) = Some 1000100"
proof -
  have a: "lock_dir stale_world (get_lock_file_path demo_collab ''/r/c.py'') =
             Some \<lparr>content = ''held'', mtime = 600000, readable = True, writable = True\<rparr>"
    by (simp add: stale_world_def base_world_def)
  have b: "clock stale_world -
             mtime \<lparr>content = ''held'', mtime = 600000, readable = True, writable = True\<rparr> > 300000"
    by (simp add: stale_world_def base_world_def)
  have c: "(1::int) \<le> 5" by simp
  show ?thesis
    unfolding acquire_file_lock_heals_stale [OF a b c]
    by (simp add: stale_world_def base_world_def)
qed


section \<open>Conflict resolver\<close>

lemma log_conflict_simps:
  "variables (log_conflict p r x w) = variables w"
  "lock_dir (log_conflict p r x w) = lock_dir w"
  "clock (log_conflict p r x w) = clock w"
  "tree (log_conflict p r x w) = tree w"
  "user_activity_file (log_conflict p r x w) = user_activity_file w"
  "rules_dir_exists (log_conflict p r x w) = rules_dir_exists w"
  by (simp_all add: log_conflict_def)

lemma resolve_non_dev:
  assumes "get_project_mode w \<noteq> ''devP''"
  shows "resolve_path_conflict K p r w =
        (ProdSkip,
         w\<lparr>conflict_log := conflict_log w @
             [\<lparr>logged_at = clock w, subject_path = p, mode_at_decision = get_project_mode w,
               reason = r, outcome = Pending\<rparr>,
              \<lparr>logged_at = clock w, subject_path = p, mode_at_decision = get_project_mode w,
               reason = r, outcome = ProdSkip\<rparr>]\<rparr>)"
proof -
  have m: "get_project_mode (w\<lparr>conflict_log := conflict_log w @
             [\<lparr>logged_at = clock w, subject_path = p, mode_at_decision = get_project_mode w,
               reason = r, outcome = Pending\<rparr>]\<rparr>) = get_project_mode w"
    by (rule get_project_mode_cong) simp
  show ?thesis
    using assms unfolding resolve_path_conflict_def Let_def log_conflict_def
    by (simp add: m)
qed

lemma resolve_dev:
  assumes "get_project_mode w = ''devP''"
      and "acquire_file_lock K p 5 (log_conflict p r Pending w) = (ok, w2)"
  shows "resolve_path_conflict K p r w =
           (if ok then (ForcedWithLock, log_conflict p r ForcedWithLock w2)
            else (LockFailedSkip, log_conflict p r LockFailedSkip w2))"
  using assms unfolding resolve_path_conflict_def Let_def
  by simp

lemma check_unlocked:
  assumes "\<not> (fst (is_file_locked K w p) \<and> truthy (snd (is_file_locked K w p)))"
  shows "check_path_conflicts K w p =
     (if get_project_mode w = ''devP'' then
        (if is_user_active w then (False, DevPriority) else (False, NoUserActivity))
      else if get_project_mode w = ''proD'' then
        (if is_user_active w then (True, ProdUserActive) else (False, NoUserActivity))
      else if is_user_active w then (True, UnknownModeUserActive)
      else (False, NoConflict))"
proof (cases "is_file_locked K w p")
  case (Pair is_locked lock_info)
  with assms show ?thesis
    unfolding check_path_conflicts_def Let_def by auto
qed

lemma prod_active_fields:
  "lock_dir prod_active_world = Map.empty"
  "clock prod_active_world = 1000000"
  "conflict_log prod_active_world = []"
  by (simp_all add: prod_active_world_def base_world_def)

lemma prod_conflict:
  "check_path_conflicts demo_collab prod_active_world ''/r/b.py'' = (True, ProdUserActive)"
  by (simp add: check_path_conflicts_def demo_modes is_file_locked_def prod_active_fields)

lemma prod_acquire:
  "fst (acquire_file_lock demo_collab ''/r/b.py'' 5 prod_active_world)"
  by (simp add: acquire_file_lock_def acquire_loop.simps prod_active_fields)

lemma compliance_after_conflict:
  assumes "check_path_conflicts K w p = (True, r)"
  shows "fst (check_project_files_compliance K [p] w) =
           [(p, if skips (fst (resolve_path_conflict K p r w))
                then (False, [ConflictIssue r], [])
                else check_file_compliance K (snd (resolve_path_conflict K p r w)) p)]"
proof (cases "resolve_path_conflict K p r w")
  case (Pair res w1)
  with assms show ?thesis
    by (simp add: check_project_files_compliance_def)
qed

lemma dev_stale_conflict:
  "check_path_conflicts demo_collab dev_stale_world ''/r/c.py'' = (True, FileLocked ''held'')"
  by code_simp

text \<open>
  Claim C1, as the code has it. Outside mode \<open>devP\<close> (under \<open>proD\<close> and under any
  unknown mode) \<open>resolve_path_conflict\<close> never tries the lock: it writes its two audit
  records, changes nothing else, and its outcome is the skip "proD mode skips
  processing". The lock is tried, with the default timeout of 5 seconds, under \<open>devP\<close>
  only: if the acquisition succeeds the outcome is the forced one, if it fails the
  outcome is the skip "cannot take the file lock"; the sentinels are then those the
  acquisition left. In the compliance pass, a file in conflict whose outcome is a skip is
  recorded as non-compliant for the reason of the conflict, without being read; with
  the forced outcome the file is not skipped and its compliance check runs. The resolver
  does not release the sentinel it has taken, and nothing is stated here about the fix
  that may follow the check.
\<close>

theorem resolve_path_conflict_by_mode:
  "(get_project_mode w \<noteq> ''devP'' \<longrightarrow>
      resolve_path_conflict K p r w =
        (ProdSkip,
         w\<lparr>conflict_log := conflict_log w @
             [\<lparr>logged_at = clock w, subject_path = p, mode_at_decision = get_project_mode w,
               reason = r, outcome = Pending\<rparr>,
              \<lparr>logged_at = clock w, subject_path = p, mode_at_decision = get_project_mode w,
               reason = r, outcome = ProdSkip\<rparr>]\<rparr>)) \<and>
   (get_project_mode w = ''devP'' \<longrightarrow>
      fst (resolve_path_conflict K p r w) =
        (if fst (acquire_file_lock K p 5 (log_conflict p r Pending w))
         then ForcedWithLock else LockFailedSkip) \<and>
      lock_dir (snd (resolve_path_conflict K p r w)) =
        lock_dir (snd (acquire_file_lock K p 5 (log_conflict p r Pending w)))) \<and>
   (check_path_conflicts K w p = (True, r) \<longrightarrow>
      fst (check_project_files_compliance K [p] w) =
        [(p, if skips (fst (resolve_path_conflict K p r w))
             then (False, [ConflictIssue r], [])
             else check_file_compliance K (snd (resolve_path_conflict K p r w)) p)])"
proof (intro conjI impI)
  assume "get_project_mode w \<noteq> ''devP''"
  then show "resolve_path_conflict K p r w =
        (ProdSkip,
         w\<lparr>conflict_log := conflict_log w @
             [\<lparr>logged_at = clock w, subject_path = p, mode_at_decision = get_project_mode w,
               reason = r, outcome = Pending\<rparr>,
              \<lparr>logged_at = clock w, subject_path = p, mode_at_decision = get_project_mode w,
               reason = r, outcome = ProdSkip\<rparr>]\<rparr>)"
    by (rule resolve_non_dev)
next
  assume dev: "get_project_mode w = ''devP''"
  obtain ok w2 where a: "acquire_file_lock K p 5 (log_conflict p r Pending w) = (ok, w2)"
    by (cases "acquire_file_lock K p 5 (log_conflict p r Pending w)")
  show "fst (resolve_path_conflict K p r w) =
        (if fst (acquire_file_lock K p 5 (log_conflict p r Pending w))
         then ForcedWithLock else LockFailedSkip)"
    by (simp add: resolve_dev [OF dev a] a)
  show "lock_dir (snd (resolve_path_conflict K p r w)) =
        lock_dir (snd (acquire_file_lock K p 5 (log_conflict p r Pending w)))"
    by (simp add: resolve_dev [OF dev a] a log_conflict_simps)
next
  assume "check_path_conflicts K w p = (True, r)"
  then show "fst (check_project_files_compliance K [p] w) =
        [(p, if skips (fst (resolve_path_conflict K p r w))
             then (False, [ConflictIssue r], [])
             else check_file_compliance K (snd (resolve_path_conflict K p r w)) p)]"
    by (rule compliance_after_conflict)
qed

lemma dev_stale_mode: "get_project_mode dev_stale_world = ''devP''"
  by (simp add: get_project_mode_def get_project_mod_config_def dev_stale_world_def
        stale_world_def base_world_def dev_vars_def py_split_def
        py_strip_def py_lstrip_def py_rstrip_def lstrip_with.simps ws_match_def ws_codes_def)

lemma dev_stale_acquire:
  "fst (acquire_file_lock demo_collab ''/r/c.py'' 5
          (log_conflict ''/r/c.py'' (FileLocked ''held'') Pending dev_stale_world))"
proof -
  let ?w = "log_conflict ''/r/c.py'' (FileLocked ''held'') Pending dev_stale_world"
  have a: "lock_dir ?w (get_lock_file_path demo_collab ''/r/c.py'') =
             Some \<lparr>content = ''held'', mtime = 600000, readable = True, writable = True\<rparr>"
    by (simp add: log_conflict_simps dev_stale_world_def stale_world_def base_world_def)
  have b: "clock ?w -
             mtime \<lparr>content = ''held'', mtime = 600000, readable = True, writable = True\<rparr> > 300000"
    by (simp add: log_conflict_simps dev_stale_world_def stale_world_def base_world_def)
  have c: "(1::int) \<le> 5" by simp
  show ?thesis
    unfolding acquire_stale_sentinel [OF a b c] by simp
qed

text \<open>
  The two branches at concrete states: in mode \<open>proD\<close> the conflict on \<open>/r/b.py\<close> is
  skipped; in mode \<open>devP\<close> the conflict on \<open>/r/c.py\<close>, whose sentinel is stale, ends
  with the lock taken by force.
\<close>

theorem resolve_path_conflict_by_mode_witness:
  "get_project_mode prod_active_world \<noteq> ''devP'' \<and>
   fst (resolve_path_conflict demo_collab ''/r/b.py'' ProdUserActive prod_active_world) = ProdSkip \<and>
   fst (check_project_files_compliance demo_collab [''/r/b.py''] prod_active_world) =
     [(''/r/b.py'', False, [ConflictIssue ProdUserActive], [])] \<and>
   get_project_mode dev_stale_world = ''devP'' \<and>
   check_path_conflicts demo_collab dev_stale_world ''/r/c.py'' = (True, FileLocked ''held'') \<and>
   fst (resolve_path_conflict demo_collab ''/r/c.py'' (FileLocked ''held'') dev_stale_world)
     = ForcedWithLock"
proof -
  note t1 = resolve_path_conflict_by_mode
         [of prod_active_world demo_collab "''/r/b.py''" ProdUserActive]
  note t2 = resolve_path_conflict_by_mode
         [of dev_stale_world demo_collab "''/r/c.py''" "FileLocked ''held''"]
  have a: "get_project_mode prod_active_world \<noteq> ''devP''"
    by (simp add: demo_modes)
  have b: "get_project_mode dev_stale_world = ''devP''"
    by (rule dev_stale_mode)
  from a t1 [THEN conjunct1]
  have c: "fst (resolve_path_conflict demo_collab ''/r/b.py'' ProdUserActive prod_active_world)
             = ProdSkip"
    by simp
  from prod_conflict t1 [THEN conjunct2, THEN conjunct2]
  have d: "fst (check_project_files_compliance demo_collab [''/r/b.py''] prod_active_world) =
     [(''/r/b.py'', if skips (fst (resolve_path_conflict demo_collab ''/r/b.py'' ProdUserActive
                                      prod_active_world))
                    then (False, [ConflictIssue ProdUserActive], [])
                    else check_file_compliance demo_collab
                           (snd (resolve_path_conflict demo_collab ''/r/b.py'' ProdUserActive
                                      prod_active_world)) ''/r/b.py'')]"
    by blast
  from b dev_stale_acquire t2 [THEN conjunct2, THEN conjunct1]
  have e: "fst (resolve_path_conflict demo_collab ''/r/c.py'' (FileLocked ''held'') dev_stale_world)
             = ForcedWithLock"
    by simp
  from a b c d e dev_stale_conflict show ?thesis by simp
qed

text \<open>
  Claim C1 as stated fails. In mode \<open>proD\<close> with an active user and no sentinel for
  \<open>/r/b.py\<close>, the conflict check reports a conflict and an acquisition would succeed;
  yet the resolver's outcome is the skip, and it leaves the lock directory as it was.
\<close>

theorem prod_conflict_is_skipped_without_lock_attempt:
  "check_path_conflicts demo_collab prod_active_world ''/r/b.py'' = (True, ProdUserActive) \<and>
   get_project_mode prod_active_world = ''proD'' \<and>
   fst (acquire_file_lock demo_collab ''/r/b.py'' 5 prod_active_world) \<and>
   fst (resolve_path_conflict demo_collab ''/r/b.py'' ProdUserActive prod_active_world) = ProdSkip \<and>
   lock_dir (snd (resolve_path_conflict demo_collab ''/r/b.py'' ProdUserActive prod_active_world))
      = lock_dir prod_active_world"
proof -
  have "get_project_mode prod_active_world \<noteq> ''devP''"
    by (simp add: demo_modes)
  then show ?thesis
    by (simp add: prod_conflict prod_acquire demo_modes resolve_non_dev)
qed

text \<open>
  What follows the forced outcome in an example: the file is checked and found
  non-compliant, and the fix is not made, since \<open>update_file_compliance\<close> cannot
  take the lock whose sentinel the resolver has just written.
\<close>

lemma forced_file_is_not_fixed:
  "fst (process_files_for_compliance demo_collab [''/r/c.py''] dev_stale_file_world) = (1, 0) \<and>
   map_option content
     (map_of (tree (snd (process_files_for_compliance demo_collab [''/r/c.py'']
                           dev_stale_file_world))) ''/r/c.py'') = Some ''print(1)''"
  by code_simp

section \<open>Sentinels with blank or unreadable content\<close>

lemma strip_blank: "py_strip [CHR 0x20, CHR 0x0A] = []"
proof -
  have a: "py_rstrip [CHR 0x20, CHR 0x0A] = []"
    by (simp add: py_rstrip_def lstrip_with.simps ws_match_def ws_codes_def)
  have b: "py_lstrip [] = []"
    by (simp add: py_lstrip_def lstrip_with.simps ws_match_def ws_codes_def)
  show ?thesis
    unfolding py_strip_def a b ..
qed

lemma empty_sentinel_fields:
  "lock_dir empty_sentinel_world (get_lock_file_path demo_collab ''/r/e.py'') =
     Some \<lparr>content = [CHR 0x20, CHR 0x0A], mtime = 999000, readable = True, writable = True\<rparr>"
  "user_activity_file empty_sentinel_world = None"
  "variables empty_sentinel_world = prod_vars"
  by (simp_all add: empty_sentinel_world_def base_world_def)

lemma empty_sentinel_mode: "get_project_mode empty_sentinel_world = ''proD''"
proof -
  have "variables empty_sentinel_world = variables prod_active_world"
    by (simp add: empty_sentinel_fields prod_active_world_def)
  from get_project_mode_cong [OF this] show ?thesis
    by (simp add: demo_modes)
qed

text \<open>
  Claim C10, as the code has it. Let the sentinel of a path exist. If it cannot be
  read, \<open>is_file_locked\<close> answers "not locked". If it can be read and its content is
  empty after stripping, \<open>is_file_locked\<close> answers "locked", with empty lock
  information. In both cases \<open>check_path_conflicts\<close> decides as if the sentinel were
  absent, by mode and user activity alone, and never reports the conflict "file is
  locked".
\<close>

theorem blank_or_unreadable_sentinel:
  assumes "lock_dir w (get_lock_file_path K p) = Some f"
  shows "(\<not> readable f \<longrightarrow> is_file_locked K w p = (False, None)) \<and>
   (readable f \<and> py_strip (content f) = [] \<longrightarrow> is_file_locked K w p = (True, Some [])) \<and>
   (\<not> readable f \<or> py_strip (content f) = [] \<longrightarrow>
      check_path_conflicts K w p =
        check_path_conflicts K (w\<lparr>lock_dir := (lock_dir w)(get_lock_file_path K p := None)\<rparr>) p \<and>
      (\<forall>info. check_path_conflicts K w p \<noteq> (True, FileLocked info)))"
proof (intro conjI impI)
  show "is_file_locked K w p = (False, None)" if "\<not> readable f"
    using that assms by (simp add: is_file_locked_def)
  show "is_file_locked K w p = (True, Some [])" if "readable f \<and> py_strip (content f) = []"
    using that assms by (simp add: is_file_locked_def)
next
  assume h: "\<not> readable f \<or> py_strip (content f) = []"
  let ?w' = "w\<lparr>lock_dir := (lock_dir w)(get_lock_file_path K p := None)\<rparr>"
  have a: "\<not> (fst (is_file_locked K w p) \<and> truthy (snd (is_file_locked K w p)))"
    using h assms by (auto simp: is_file_locked_def)
  have b: "\<not> (fst (is_file_locked K ?w' p) \<and> truthy (snd (is_file_locked K ?w' p)))"
    by (simp add: is_file_locked_def)
  have m: "get_project_mode ?w' = get_project_mode w"
    by (rule get_project_mode_cong) simp
  have u: "is_user_active ?w' = is_user_active w"
    by (simp add: is_user_active_def split: option.splits)
  show "check_path_conflicts K w p = check_path_conflicts K ?w' p"
    by (simp only: check_unlocked [OF a] check_unlocked [OF b] m u)
  show "\<forall>info. check_path_conflicts K w p \<noteq> (True, FileLocked info)"
    by (simp add: check_unlocked [OF a])
qed

text \<open>
  A readable sentinel holding a blank line, mode \<open>proD\<close>, no user activity: the lock
  query says locked with no information, the conflict check reports no conflict.
\<close>

theorem blank_or_unreadable_sentinel_witness:
  "is_file_locked demo_collab empty_sentinel_world ''/r/e.py'' = (True, Some []) \<and>
   check_path_conflicts demo_collab empty_sentinel_world ''/r/e.py'' = (False, NoUserActivity)"
proof -
  note t = blank_or_unreadable_sentinel [OF empty_sentinel_fields(1)]
  have s: "readable \<lparr>content = [CHR 0x20, CHR 0x0A], mtime = 999000, readable = True, writable = True\<rparr> \<and>
        py_strip (content \<lparr>content = [CHR 0x20, CHR 0x0A], mtime = 999000, readable = True, writable = True\<rparr>) = []"
    by (simp add: strip_blank)
  from t s have a: "is_file_locked demo_collab empty_sentinel_world ''/r/e.py'' = (True, Some [])"
    by blast
  from t s have b: "check_path_conflicts demo_collab empty_sentinel_world ''/r/e.py'' =
        check_path_conflicts demo_collab
          (empty_sentinel_world\<lparr>lock_dir := (lock_dir empty_sentinel_world)
              (get_lock_file_path demo_collab ''/r/e.py'' := None)\<rparr>) ''/r/e.py''"
    by blast
  have m: "get_project_mode (empty_sentinel_world\<lparr>lock_dir := (lock_dir empty_sentinel_world)
              (get_lock_file_path demo_collab ''/r/e.py'' := None)\<rparr>) = ''proD''"
    using get_project_mode_cong [of "empty_sentinel_world\<lparr>lock_dir := (lock_dir empty_sentinel_world)
              (get_lock_file_path demo_collab ''/r/e.py'' := None)\<rparr>" empty_sentinel_world]
    by (simp add: empty_sentinel_mode)
  have c: "check_path_conflicts demo_collab
          (empty_sentinel_world\<lparr>lock_dir := (lock_dir empty_sentinel_world)
              (get_lock_file_path demo_collab ''/r/e.py'' := None)\<rparr>) ''/r/e.py'' = (False, NoUserActivity)"
    by (simp add: check_path_conflicts_def is_file_locked_def m is_user_active_def
          empty_sentinel_fields)
  from a b c show ?thesis by simp
qed

text \<open>
  Claim C10 as stated fails for the lock query: on a sentinel whose content is blank,
  \<open>is_file_locked\<close> reports the path as locked.
\<close>

theorem blank_sentinel_reported_locked:
  "lock_dir empty_sentinel_world (get_lock_file_path demo_collab ''/r/e.py'') =
     Some \<lparr>content = [CHR 0x20, CHR 0x0A], mtime = 999000, readable = True, writable = True\<rparr> \<and>
   py_strip [CHR 0x20, CHR 0x0A] = [] \<and>
   fst (is_file_locked demo_collab empty_sentinel_world ''/r/e.py'')"
  by (simp add: empty_sentinel_fields strip_blank is_file_locked_def)



section \<open>Change detector\<close>

lemma calculate_file_hash_cong:
  "tree w' = tree w \<Longrightarrow> calculate_file_hash K w' p = calculate_file_hash K w p"
  by (simp add: calculate_file_hash_def)

lemma project_files_loop_mono:
  "set acc \<subseteq> set (fst (project_files_loop K fs acc w))"
proof (induction fs arbitrary: acc w)
  case Nil
  then show ?case by simp
next
  case (Cons fp fs)
  show ?case
  proof (cases "project_files_hash_cache w fp")
    case None
    then show ?thesis using Cons.IH by (simp add: Let_def)
  next
    case (Some cached)
    show ?thesis
    proof (cases "calculate_file_hash K w fp = cached")
      case True
      with Some show ?thesis using Cons.IH by (simp add: Let_def)
    next
      case False
      have "set acc \<subseteq> set (if fp \<noteq> todo_file_path K then acc @ [fp] else acc)"
        by auto
      also have "\<dots> \<subseteq> set (fst (project_files_loop K fs
           (if fp \<noteq> todo_file_path K then acc @ [fp] else acc)
           (w\<lparr>project_files_hash_cache :=
                      (project_files_hash_cache w)(fp \<mapsto> calculate_file_hash K w fp)\<rparr>)))"
        by (rule Cons.IH)
      finally show ?thesis using Some False by (simp add: Let_def)
    qed
  qed
qed

lemma project_files_loop_reports_unreadable:
  assumes "p \<in> set fs"
      and "project_files_hash_cache w p = Some (Some h)"
      and "calculate_file_hash K w p = None"
      and "p \<noteq> todo_file_path K"
  shows "p \<in> set (fst (project_files_loop K fs acc w))"
  using assms
proof (induction fs arbitrary: acc w)
  case Nil
  then show ?case by simp
next
  case (Cons fp fs)
  show ?case
  proof (cases "fp = p")
    case True
    have "p \<in> set (acc @ [p])" by simp
    also have "set (acc @ [p]) \<subseteq> set (fst (project_files_loop K fs (acc @ [p])
           (w\<lparr>project_files_hash_cache := (project_files_hash_cache w)(p \<mapsto> None)\<rparr>)))"
      by (rule project_files_loop_mono)
    finally show ?thesis using True Cons.prems by (simp add: Let_def)
  next
    case False
    with Cons.prems have in_rest: "p \<in> set fs" by simp
    show ?thesis
    proof (cases "project_files_hash_cache w fp")
      case None
      let ?w1 = "if truthy (calculate_file_hash K w fp)
                then w\<lparr>project_files_hash_cache :=
                         (project_files_hash_cache w)(fp \<mapsto> calculate_file_hash K w fp)\<rparr>
                else w"
      have c: "project_files_hash_cache ?w1 p = Some (Some h)"
        using False Cons.prems by simp
      have d: "calculate_file_hash K ?w1 p = None"
        using Cons.prems by (simp add: calculate_file_hash_def)
      from Cons.IH [OF in_rest c d Cons.prems(4), of acc] None show ?thesis
        by (simp add: Let_def)
    next
      case (Some cached)
      show ?thesis
      proof (cases "calculate_file_hash K w fp = cached")
        case True
        from Cons.IH [OF in_rest Cons.prems(2) Cons.prems(3) Cons.prems(4), of acc] Some True
        show ?thesis by (simp add: Let_def)
      next
        case ne: False
        let ?w1 = "w\<lparr>project_files_hash_cache :=
                      (project_files_hash_cache w)(fp \<mapsto> calculate_file_hash K w fp)\<rparr>"
        have c: "project_files_hash_cache ?w1 p = Some (Some h)"
          using False Cons.prems by simp
        have d: "calculate_file_hash K ?w1 p = None"
          using Cons.prems by (simp add: calculate_file_hash_def)
        from Cons.IH [OF in_rest c d Cons.prems(4),
              of "if fp \<noteq> todo_file_path K then acc @ [fp] else acc"] Some ne
        show ?thesis by (simp add: Let_def)
      qed
    qed
  qed
qed

lemma scan_unreadable: "scan_project_files demo_collab unreadable_world = [''/r/a.py'', ''/r/b.py'']"
  by (simp add: scan_project_files_def walk_keeps_def unreadable_world_def base_world_def
        demo_collab_def startswith_def endswith_def py_split_def denied_dirs_def
        default_extensions_def suffix_def)

text \<open>
  Claim C3 fails on the code; this is what the code does. A project file the scan lists,
  whose cached hash is a real hash and whose content cannot be hashed now (the file
  vanished or cannot be read), is in the list of changed files that
  \<open>check_project_files_changes\<close> returns, unless it is the ledger file. The scan goes
  on over the remaining files.
\<close>

theorem unreadable_tracked_file_reported_changed:
  assumes "p \<in> set (scan_project_files K w)"
      and "project_files_hash_cache w p = Some (Some h)"
      and "calculate_file_hash K w p = None"
      and "p \<noteq> todo_file_path K"
  shows "p \<in> set (fst (check_project_files_changes K w))"
  unfolding check_project_files_changes_def
  using assms by (rule project_files_loop_reports_unreadable)

lemma unreadable_facts:
  "project_files_hash_cache unreadable_world ''/r/a.py'' = Some (Some ''print(1)'')"
  "calculate_file_hash demo_collab unreadable_world ''/r/a.py'' = None"
  "''/r/a.py'' \<noteq> todo_file_path demo_collab"
  "map_option readable (map_of (tree unreadable_world) ''/r/a.py'') = Some False"
  by (simp_all add: unreadable_world_def base_world_def calculate_file_hash_def
        todo_file_path_def demo_collab_def)

text \<open>
  The tracked file \<open>/r/a.py\<close> cannot be read, so its hash is \<open>None\<close>; it is
  reported as changed.
\<close>

theorem unreadable_tracked_file_reported_changed_witness:
  "map_option readable (map_of (tree unreadable_world) ''/r/a.py'') = Some False \<and>
   calculate_file_hash demo_collab unreadable_world ''/r/a.py'' = None \<and>
   ''/r/a.py'' \<in> set (fst (check_project_files_changes demo_collab unreadable_world))"
proof -
  have "''/r/a.py'' \<in> set (scan_project_files demo_collab unreadable_world)"
    by (simp add: scan_unreadable)
  from unreadable_tracked_file_reported_changed [OF this unreadable_facts(1,2,3)]
  show ?thesis by (simp add: unreadable_facts)
qed

lemma rule_files_loop_frame:
  "rule_files_loop K fs acc w = (ch, w') \<Longrightarrow>
     tree w' = tree w \<and> variables w' = variables w \<and> clock w' = clock w \<and>
     user_activity_file w' = user_activity_file w \<and> lock_dir w' = lock_dir w \<and>
     project_files_hash_cache w' = project_files_hash_cache w"
proof (induction fs arbitrary: acc w)
  case Nil
  then show ?case by simp
next
  case (Cons fp fs)
  let ?h = "calculate_file_hash K w fp"
  let ?wu = "w\<lparr>rules_hash_cache := (rules_hash_cache w)(fp \<mapsto> ?h)\<rparr>"
  show ?case
  proof (cases "rules_hash_cache w fp")
    case None
    show ?thesis
    proof (cases "truthy ?h")
      case True
      with None Cons.prems have "rule_files_loop K fs acc ?wu = (ch, w')"
        by (simp add: Let_def)
      from Cons.IH [OF this] show ?thesis by simp
    next
      case False
      with None Cons.prems have "rule_files_loop K fs acc w = (ch, w')"
        by (simp add: Let_def)
      from Cons.IH [OF this] show ?thesis by simp
    qed
  next
    case (Some cached)
    show ?thesis
    proof (cases "?h = cached")
      case True
      with Some Cons.prems have "rule_files_loop K fs acc w = (ch, w')"
        by (simp add: Let_def)
      from Cons.IH [OF this] show ?thesis by simp
    next
      case False
      with Some Cons.prems have "rule_files_loop K fs (acc @ [fp]) ?wu = (ch, w')"
        by (simp add: Let_def)
      from Cons.IH [OF this] show ?thesis by simp
    qed
  qed
qed

lemma project_files_loop_frame:
  "project_files_loop K fs acc w = (ch, w') \<Longrightarrow>
     tree w' = tree w \<and> variables w' = variables w \<and> clock w' = clock w \<and>
     user_activity_file w' = user_activity_file w \<and> lock_dir w' = lock_dir w"
proof (induction fs arbitrary: acc w)
  case Nil
  then show ?case by simp
next
  case (Cons fp fs)
  let ?h = "calculate_file_hash K w fp"
  let ?wu = "w\<lparr>project_files_hash_cache := (project_files_hash_cache w)(fp \<mapsto> ?h)\<rparr>"
  show ?case
  proof (cases "project_files_hash_cache w fp")
    case None
    show ?thesis
    proof (cases "truthy ?h")
      case True
      with None Cons.prems have "project_files_loop K fs acc ?wu = (ch, w')"
        by (simp add: Let_def)
      from Cons.IH [OF this] show ?thesis by simp
    next
      case False
      with None Cons.prems have "project_files_loop K fs acc w = (ch, w')"
        by (simp add: Let_def)
      from Cons.IH [OF this] show ?thesis by simp
    qed
  next
    case (Some cached)
    show ?thesis
    proof (cases "?h = cached")
      case True
      with Some Cons.prems have "project_files_loop K fs acc w = (ch, w')"
        by (simp add: Let_def)
      from Cons.IH [OF this] show ?thesis by simp
    next
      case False
      with Some Cons.prems have "project_files_loop K fs
          (if fp \<noteq> todo_file_path K then acc @ [fp] else acc) ?wu = (ch, w')"
        by (simp add: Let_def)
      from Cons.IH [OF this] show ?thesis by simp
    qed
  qed
qed

lemma scan_project_files_cong:
  "tree w' = tree w \<Longrightarrow> scan_project_files K w' = scan_project_files K w"
  by (simp add: scan_project_files_def)

lemma rule_changed_eval:
  "fst (check_rule_files_changes demo_collab rule_changed_world) = [''/r/rules/r.md'']"
  "fst (check_project_files_changes demo_collab
         (snd (check_rule_files_changes demo_collab rule_changed_world))) = []"
  "scan_project_files demo_collab rule_changed_world = [''/r/rules/r.md'', ''/r/a.py'']"
  by code_simp+

lemma unreadable_eval:
  "fst (check_rule_files_changes demo_collab unreadable_world) = []"
  "fst (check_project_files_changes demo_collab
         (snd (check_rule_files_changes demo_collab unreadable_world))) = [''/r/a.py'', ''/r/b.py'']"
  by code_simp+

text \<open>
  Claim C4. In a monitor cycle, let the rule files be checked first and the project files
  second. If the list of changed rule files is not empty, the files handed on are all
  the files \<open>scan_project_files\<close> finds in the project, whatever the list of changed
  project files is; when that list is not empty and the gate \<open>should_execute_evolution\<close>
  is open, the cycle is the remediation of exactly these files. If no rule file changed
  and some project files did, the files handed on are exactly the changed project files,
  and with the gate open the cycle is their remediation.
\<close>

theorem monitor_cycle_candidates:
  assumes "check_rule_files_changes K w = (changed_rule_files, w1)"
      and "check_project_files_changes K w1 = (changed_project_files, w2)"
  shows "(changed_rule_files \<noteq> [] \<longrightarrow>
            files_to_process K changed_rule_files changed_project_files w2 =
              scan_project_files K w \<and>
            (scan_project_files K w \<noteq> [] \<and> should_execute_evolution w2 \<longrightarrow>
               run_monitor_cycle K w = remediate K (scan_project_files K w) w2)) \<and>
         (changed_rule_files = [] \<and> changed_project_files \<noteq> [] \<longrightarrow>
            files_to_process K changed_rule_files changed_project_files w2 =
              changed_project_files \<and>
            (should_execute_evolution w2 \<longrightarrow>
               run_monitor_cycle K w = remediate K changed_project_files w2))"
proof -
  have "rule_files_loop K (rule_files w) [] w = (changed_rule_files, w1)"
    using assms(1) unfolding check_rule_files_changes_def .
  from rule_files_loop_frame [OF this] have t1: "tree w1 = tree w" ..
  have "project_files_loop K (scan_project_files K w1) [] w1 = (changed_project_files, w2)"
    using assms(2) unfolding check_project_files_changes_def .
  from project_files_loop_frame [OF this] have t2: "tree w2 = tree w1" ..
  have s: "scan_project_files K w2 = scan_project_files K w"
    by (rule scan_project_files_cong) (simp add: t1 t2)
  have f1: "changed_rule_files \<noteq> [] \<Longrightarrow>
      files_to_process K changed_rule_files changed_project_files w2 = scan_project_files K w"
    by (simp add: files_to_process_def s)
  have r: "run_monitor_cycle K w =
     (if files_to_process K changed_rule_files changed_project_files w2 \<noteq> [] \<and>
         should_execute_evolution w2
      then remediate K (files_to_process K changed_rule_files changed_project_files w2) w2
      else w2)"
    unfolding run_monitor_cycle_def Let_def assms(1) prod.case assms(2) ..
  show ?thesis
  proof (intro conjI impI)
    assume a: "changed_rule_files \<noteq> []"
    show "files_to_process K changed_rule_files changed_project_files w2 = scan_project_files K w"
      by (rule f1 [OF a])
    assume "scan_project_files K w \<noteq> [] \<and> should_execute_evolution w2"
    then show "run_monitor_cycle K w = remediate K (scan_project_files K w) w2"
      unfolding r f1 [OF a] by simp
  next
    assume b: "changed_rule_files = [] \<and> changed_project_files \<noteq> []"
    then show "files_to_process K changed_rule_files changed_project_files w2 = changed_project_files"
      by (simp add: files_to_process_def)
    assume "should_execute_evolution w2"
    with b show "run_monitor_cycle K w = remediate K changed_project_files w2"
      unfolding r by (simp add: files_to_process_def)
  qed
qed

text \<open>
  A changed rule file hands on the whole scanned project (not the file under \<open>.git\<close>,
  not the \<open>.log\<close> file), although no project file changed; without a rule change the
  two changed project files are handed on.
\<close>

theorem monitor_cycle_candidates_witness:
  "fst (check_rule_files_changes demo_collab rule_changed_world) = [''/r/rules/r.md''] \<and>
   fst (check_project_files_changes demo_collab
         (snd (check_rule_files_changes demo_collab rule_changed_world))) = [] \<and>
   files_to_process demo_collab [''/r/rules/r.md''] []
     (snd (check_project_files_changes demo_collab
         (snd (check_rule_files_changes demo_collab rule_changed_world))))
     = [''/r/rules/r.md'', ''/r/a.py''] \<and>
   fst (check_rule_files_changes demo_collab unreadable_world) = [] \<and>
   files_to_process demo_collab [] [''/r/a.py'', ''/r/b.py'']
     (snd (check_project_files_changes demo_collab
         (snd (check_rule_files_changes demo_collab unreadable_world))))
     = [''/r/a.py'', ''/r/b.py'']"
proof -
  let ?w1 = "snd (check_rule_files_changes demo_collab rule_changed_world)"
  let ?w2 = "snd (check_project_files_changes demo_collab ?w1)"
  have a: "check_rule_files_changes demo_collab rule_changed_world = ([''/r/rules/r.md''], ?w1)"
    using rule_changed_eval(1) by (simp add: prod_eq_iff)
  have b: "check_project_files_changes demo_collab ?w1 = ([], ?w2)"
    using rule_changed_eval(2) by (simp add: prod_eq_iff)
  from monitor_cycle_candidates [OF a b]
  have c: "files_to_process demo_collab [''/r/rules/r.md''] [] ?w2 =
             scan_project_files demo_collab rule_changed_world"
    by simp
  let ?u1 = "snd (check_rule_files_changes demo_collab unreadable_world)"
  let ?u2 = "snd (check_project_files_changes demo_collab ?u1)"
  have d: "check_rule_files_changes demo_collab unreadable_world = ([], ?u1)"
    using unreadable_eval(1) by (simp add: prod_eq_iff)
  have e: "check_project_files_changes demo_collab ?u1 = ([''/r/a.py'', ''/r/b.py''], ?u2)"
    using unreadable_eval(2) by (simp add: prod_eq_iff)
  from monitor_cycle_candidates [OF d e]
  have f: "files_to_process demo_collab [] [''/r/a.py'', ''/r/b.py''] ?u2 = [''/r/a.py'', ''/r/b.py'']"
    by simp
  from c f rule_changed_eval unreadable_eval show ?thesis by simp
qed

section \<open>Todo ledger\<close>

lemma resolve_frame:
  assumes "resolve_path_conflict K p r w = (res, w1)"
  shows "tree w1 = tree w \<and> variables w1 = variables w \<and>
         rules_dir_exists w1 = rules_dir_exists w"
proof (cases "get_project_mode w = ''devP''")
  case False
  from resolve_non_dev [OF False, of K p r] assms show ?thesis by auto
next
  case True
  obtain ok w2 where a: "acquire_file_lock K p 5 (log_conflict p r Pending w) = (ok, w2)"
    by (cases "acquire_file_lock K p 5 (log_conflict p r Pending w)")
  from a have "acquire_loop K p (clock (log_conflict p r Pending w)) 5
                 (log_conflict p r Pending w) = (ok, w2)"
    by (simp add: acquire_file_lock_def)
  from acquire_loop_frame [OF this]
  have f: "tree w2 = tree w" "variables w2 = variables w"
          "rules_dir_exists w2 = rules_dir_exists w"
    by (simp_all add: log_conflict_simps)
  from resolve_dev [OF True a] assms
  have "w1 = log_conflict p r ForcedWithLock w2 \<or> w1 = log_conflict p r LockFailedSkip w2"
    by (auto split: if_splits)
  with f show ?thesis by (auto simp: log_conflict_simps)
qed

lemma todo_loop_step:
  "\<exists>acc' w'. (\<forall>fs. todo_loop K ex (p # fs) acc w = todo_loop K ex fs acc' w') \<and>
      tree w' = tree w \<and> variables w' = variables w \<and>
      rules_dir_exists w' = rules_dir_exists w \<and>
      (acc' = acc \<or> p \<notin> set ex \<and> acc' = acc @ [todo_line K w' p]) \<and>
      (p \<in> set ex \<longrightarrow> acc' = acc \<and> w' = w)"
proof (cases "p \<in> set ex")
  case True
  then have "\<forall>fs. todo_loop K ex (p # fs) acc w = todo_loop K ex fs acc w"
    by (simp split: prod.splits)
  with True show ?thesis by blast
next
  case False
  obtain has_conflict r where c: "check_path_conflicts K w p = (has_conflict, r)"
    by (cases "check_path_conflicts K w p")
  show ?thesis
  proof (cases has_conflict)
    case nc: False
    with False c
    have "\<forall>fs. todo_loop K ex (p # fs) acc w = todo_loop K ex fs (acc @ [todo_line K w p]) w"
      by simp
    with False show ?thesis by blast
  next
    case True
    obtain res w1 where r: "resolve_path_conflict K p r w = (res, w1)"
      by (cases "resolve_path_conflict K p r w")
    from resolve_frame [OF r] have fr: "tree w1 = tree w" "variables w1 = variables w"
        "rules_dir_exists w1 = rules_dir_exists w"
      by simp_all
    show ?thesis
    proof (cases "skips res")
      case sk: True
      with False c True r
      have "\<forall>fs. todo_loop K ex (p # fs) acc w = todo_loop K ex fs acc w1"
        by simp
      with False fr show ?thesis by blast
    next
      case sk: False
      with False c True r
      have "\<forall>fs. todo_loop K ex (p # fs) acc w =
                 todo_loop K ex fs (acc @ [todo_line K w1 p]) w1"
        by simp
      with False fr show ?thesis by blast
    qed
  qed
qed

lemma todo_loop_frame:
  "todo_loop K ex fs acc w = (items, w') \<Longrightarrow>
     tree w' = tree w \<and> variables w' = variables w \<and>
     rules_dir_exists w' = rules_dir_exists w"
proof (induction fs arbitrary: acc w)
  case Nil
  then show ?case by simp
next
  case (Cons p fs)
  from todo_loop_step [of K ex p acc w] obtain acc1 w1 where
    s: "todo_loop K ex (p # fs) acc w = todo_loop K ex fs acc1 w1"
       "tree w1 = tree w" "variables w1 = variables w"
       "rules_dir_exists w1 = rules_dir_exists w"
    by blast
  from s(1) Cons.prems have "todo_loop K ex fs acc1 w1 = (items, w')" by simp
  from Cons.IH [OF this] s(2,3,4) show ?case by simp
qed

lemma todo_loop_drop_existing:
  "p \<in> set ex \<Longrightarrow> todo_loop K ex fs acc w = todo_loop K ex (removeAll p fs) acc w"
proof (induction fs arbitrary: acc w)
  case Nil
  then show ?case by simp
next
  case (Cons q fs)
  from todo_loop_step [of K ex q acc w] obtain acc1 w1 where
    s: "\<forall>fs. todo_loop K ex (q # fs) acc w = todo_loop K ex fs acc1 w1"
       "q \<in> set ex \<longrightarrow> acc1 = acc \<and> w1 = w"
    by blast
  have ih: "todo_loop K ex fs acc1 w1 = todo_loop K ex (removeAll p fs) acc1 w1"
    by (rule Cons.IH [OF Cons.prems])
  show ?case
  proof (cases "q = p")
    case True
    with s(2) Cons.prems have "acc1 = acc" "w1 = w" by simp_all
    with s(1) ih True show ?thesis by (simp del: todo_loop.simps)
  next
    case False
    from s(1) have "todo_loop K ex (q # removeAll p fs) acc w =
        todo_loop K ex (removeAll p fs) acc1 w1"
      by blast
    with s(1) ih False show ?thesis by (simp del: todo_loop.simps)
  qed
qed

lemma todo_loop_invariant:
  assumes "\<forall>item \<in> set acc. Q item"
      and "\<And>p w1. p \<in> set fs \<Longrightarrow> p \<notin> set ex \<Longrightarrow> variables w1 = variables w
             \<Longrightarrow> Q (todo_line K w1 p)"
  shows "\<forall>item \<in> set (fst (todo_loop K ex fs acc w)). Q item"
  using assms
proof (induction fs arbitrary: acc w)
  case Nil
  then show ?case by simp
next
  case (Cons p fs)
  from todo_loop_step [of K ex p acc w] obtain acc1 w1 where
    s: "todo_loop K ex (p # fs) acc w = todo_loop K ex fs acc1 w1"
       "variables w1 = variables w"
       "acc1 = acc \<or> p \<notin> set ex \<and> acc1 = acc @ [todo_line K w1 p]"
    by blast
  have "Q (todo_line K w1 p)" if "p \<notin> set ex"
    using that s(2) Cons.prems(2) [of p w1] by simp
  with s(3) Cons.prems(1) have a: "\<forall>item \<in> set acc1. Q item"
    by auto
  have b: "\<And>q w2. q \<in> set fs \<Longrightarrow> q \<notin> set ex \<Longrightarrow> variables w2 = variables w1
             \<Longrightarrow> Q (todo_line K w2 q)"
    using Cons.prems(2) s(2) by simp
  from Cons.IH [OF a b] s(1) show ?case by simp
qed

lemma todo_loop_no_conflict:
  "\<forall>p \<in> set fs. \<not> fst (check_path_conflicts K w p) \<Longrightarrow>
     todo_loop K ex fs acc w =
       (acc @ map (todo_line K w) (filter (\<lambda>p. p \<notin> set ex) fs), w)"
proof (induction fs arbitrary: acc)
  case Nil
  then show ?case by simp
next
  case (Cons p fs)
  obtain r where c: "check_path_conflicts K w p = (False, r)"
    using Cons.prems by (cases "check_path_conflicts K w p") auto
  have ih: "\<And>acc. todo_loop K ex fs acc w =
       (acc @ map (todo_line K w) (filter (\<lambda>p. p \<notin> set ex) fs), w)"
    using Cons by simp
  show ?case
    by (simp add: c ih)
qed

lemma existing_files_of_Nil: "existing_files_of [] = []"
proof -
  have "py_strip [] = []"
    by (simp add: py_strip_def py_lstrip_def py_rstrip_def lstrip_with.simps ws_match_def
          ws_codes_def)
  then show ?thesis
    by (simp add: existing_files_of_def py_lines_def)
qed

lemma map_of_map_update:
  "map_of (map (\<lambda>(q, g). if q = p then (q, h g) else (q, g)) l) p = map_option h (map_of l p)"
  by (induction l) auto

lemma ledger_text_append:
  assumes "append_text (todo_file_path K) txt w1 = Some w2"
  shows "ledger_text K w2 = ledger_text K w1 @ txt"
proof (cases "map_of (tree w1) (todo_file_path K)")
  case None
  with assms show ?thesis
    by (auto simp: append_text_def ledger_text_def map_add_def split: if_splits)
next
  case (Some f)
  with assms have w2: "w2 = w1\<lparr>tree := map (\<lambda>(q, g). if q = todo_file_path K
                                  then (q, g\<lparr>content := content g @ txt, mtime := clock w1\<rparr>)
                                  else (q, g)) (tree w1)\<rparr>"
    by (auto simp: append_text_def split: if_splits)
  show ?thesis
    unfolding ledger_text_def w2
    by (simp add: map_of_map_update [where h = "\<lambda>g::fnode. g\<lparr>content := content g @ txt, mtime := clock (w1::world)\<rparr>"] Some)
qed

text \<open>
  The audit log is written by the resolver only and read by nothing the ledger depends
  on.
\<close>

lemma conflict_log_irrelevant:
  "get_project_mode (w\<lparr>conflict_log := l\<rparr>) = get_project_mode w"
  "check_path_conflicts K (w\<lparr>conflict_log := l\<rparr>) p = check_path_conflicts K w p"
  "todo_line K (w\<lparr>conflict_log := l\<rparr>) p = todo_line K w p"
proof -
  show m: "get_project_mode (w\<lparr>conflict_log := l\<rparr>) = get_project_mode w"
    by (rule get_project_mode_cong) simp
  show "check_path_conflicts K (w\<lparr>conflict_log := l\<rparr>) p = check_path_conflicts K w p"
  proof -
    have u: "is_user_active (w\<lparr>conflict_log := l\<rparr>) = is_user_active w"
      by (simp add: is_user_active_def split: option.splits)
    have k: "is_file_locked K (w\<lparr>conflict_log := l\<rparr>) p = is_file_locked K w p"
      by (simp add: is_file_locked_def)
    show ?thesis
      unfolding check_path_conflicts_def m u k ..
  qed
  show "todo_line K (w\<lparr>conflict_log := l\<rparr>) p = todo_line K w p"
    by (simp add: todo_line_def m)
qed

lemma todo_loop_non_dev_gen:
  assumes "get_project_mode w \<noteq> ''devP''"
  shows "fst (todo_loop K ex fs acc (w\<lparr>conflict_log := l\<rparr>)) =
           acc @ map (todo_line K w)
                  (filter (\<lambda>p. p \<notin> set ex \<and> \<not> fst (check_path_conflicts K w p)) fs)"
proof (induction fs arbitrary: acc l)
  case Nil
  then show ?case by simp
next
  case (Cons p fs)
  let ?w = "w\<lparr>conflict_log := l\<rparr>"
  show ?case
  proof (cases "p \<in> set ex")
    case True
    then have "todo_loop K ex (p # fs) acc ?w = todo_loop K ex fs acc ?w"
      by (simp split: prod.splits)
    with True Cons.IH [of acc l] show ?thesis by simp
  next
    case False
    obtain has_conflict r where c: "check_path_conflicts K w p = (has_conflict, r)"
      by (cases "check_path_conflicts K w p")
    then have c': "check_path_conflicts K ?w p = (has_conflict, r)"
      by (simp add: conflict_log_irrelevant)
    show ?thesis
    proof (cases has_conflict)
      case nc: False
      with False c' have "todo_loop K ex (p # fs) acc ?w =
          todo_loop K ex fs (acc @ [todo_line K ?w p]) ?w"
        by simp
      with False nc c Cons.IH [of "acc @ [todo_line K w p]" l] show ?thesis
        by (simp add: conflict_log_irrelevant)
    next
      case True
      have nd: "get_project_mode ?w \<noteq> ''devP''"
        using assms by (simp add: conflict_log_irrelevant)
      obtain l' where r: "resolve_path_conflict K p r ?w = (ProdSkip, w\<lparr>conflict_log := l'\<rparr>)"
        using resolve_non_dev [OF nd, of K p r] by simp
      with False c' True have "todo_loop K ex (p # fs) acc ?w =
          todo_loop K ex fs acc (w\<lparr>conflict_log := l'\<rparr>)"
        by simp
      with False True c Cons.IH [of acc l'] show ?thesis by simp
    qed
  qed
qed

lemma todo_loop_non_dev:
  assumes "get_project_mode w \<noteq> ''devP''"
  shows "fst (todo_loop K ex fs acc w) =
           acc @ map (todo_line K w)
                  (filter (\<lambda>p. p \<notin> set ex \<and> \<not> fst (check_path_conflicts K w p)) fs)"
  using todo_loop_non_dev_gen [OF assms, of K ex fs acc "conflict_log w"] by simp

lemma todo_loop_dev_conflict:
  assumes "get_project_mode w = ''devP''" and "p \<notin> set ex"
      and "check_path_conflicts K w p = (True, r)"
  shows "todo_loop K ex (p # fs) acc w =
     (case acquire_file_lock K p 5 (log_conflict p r Pending w) of
        (acquired, w2) \<Rightarrow>
          if acquired then
            todo_loop K ex fs (acc @ [p @ ''|'' @ ''HIGH'' @ ''|'' @ isoformat K (clock w2)])
              (log_conflict p r ForcedWithLock w2)
          else todo_loop K ex fs acc (log_conflict p r LockFailedSkip w2))"
proof (cases "acquire_file_lock K p 5 (log_conflict p r Pending w)")
  case (Pair ok w2)
  then have "acquire_loop K p (clock (log_conflict p r Pending w)) 5
                 (log_conflict p r Pending w) = (ok, w2)"
    by (simp add: acquire_file_lock_def)
  from acquire_loop_frame [OF this] have v: "variables w2 = variables w"
    by (simp add: log_conflict_simps)
  have "get_project_mode (log_conflict p r ForcedWithLock w2) = get_project_mode w"
    by (rule get_project_mode_cong) (simp add: log_conflict_simps v)
  then have tl: "todo_line K (log_conflict p r ForcedWithLock w2) p =
      p @ ''|'' @ ''HIGH'' @ ''|'' @ isoformat K (clock w2)"
    using assms(1) by (simp add: todo_line_def log_conflict_simps)
  show ?thesis
    using assms(2,3) Pair resolve_dev [OF assms(1) Pair] tl
    by (simp del: append.simps)
qed

lemma todo_loop_non_dev_conflict:
  assumes "get_project_mode w \<noteq> ''devP''" and "p \<notin> set ex"
      and "check_path_conflicts K w p = (True, r)"
  shows "todo_loop K ex (p # fs) acc w =
           todo_loop K ex fs acc (log_conflict p r ProdSkip (log_conflict p r Pending w))"
proof -
  have "resolve_path_conflict K p r w =
          (ProdSkip, log_conflict p r ProdSkip (log_conflict p r Pending w))"
    using assms(1) unfolding resolve_path_conflict_def Let_def by simp
  with assms(2,3) show ?thesis by simp
qed

lemma todo_loop_no_entry_no_conflict:
  "p \<notin> set ex \<Longrightarrow> \<not> fst (check_path_conflicts K w p) \<Longrightarrow>
     todo_loop K ex (p # fs) acc w = todo_loop K ex fs (acc @ [todo_line K w p]) w"
  by (cases "check_path_conflicts K w p") simp

lemma todo_loop_entry:
  "p \<in> set ex \<Longrightarrow> todo_loop K ex (p # fs) acc w = todo_loop K ex fs acc w"
  by (simp split: prod.splits)

text \<open>
  What an enqueue adds to the text of the ledger, in every state: nothing when no item
  is kept, when the ledger file exists and cannot be read or written, or when it is
  absent and its directory does not exist; the header line and one line per kept item
  otherwise.
\<close>

lemma add_files_to_todo_text:
  "ledger_text K (add_files_to_todo K files w) =
     ledger_text K w @
     (let items = fst (todo_loop K (existing_files_of (ledger_text K w)) files [] w)
      in if items = [] \<or>
            \<not> (case map_of (tree w) (todo_file_path K) of
                 None \<Rightarrow> rules_dir_exists w
               | Some f \<Rightarrow> readable f \<and> writable f)
         then []
         else todo_header @ [CHR 0x0A] @ concat (map (\<lambda>item. item @ [CHR 0x0A]) items))"
proof -
  let ?ex = "existing_files_of (ledger_text K w)"
  obtain items w1 where l: "todo_loop K ?ex files [] w = (items, w1)"
    by (cases "todo_loop K ?ex files [] w")
  from todo_loop_frame [OF l]
  have fr: "tree w1 = tree w" "rules_dir_exists w1 = rules_dir_exists w"
    by simp_all
  have lt1: "ledger_text K w1 = ledger_text K w"
    by (simp add: ledger_text_def fr)
  let ?txt = "todo_header @ [CHR 0x0A] @ concat (map (\<lambda>item. item @ [CHR 0x0A]) items)"
  let ?ok = "case map_of (tree w) (todo_file_path K) of
                 None \<Rightarrow> rules_dir_exists w
               | Some f \<Rightarrow> readable f \<and> writable f"
  have goal: "ledger_text K (add_files_to_todo K files w) =
                ledger_text K w @ (if items = [] \<or> \<not> ?ok then [] else ?txt)"
  proof (cases "files = []")
    case True
    with l show ?thesis by (simp add: add_files_to_todo_def)
  next
    case ne: False
    show ?thesis
    proof (cases "map_of (tree w) (todo_file_path K)")
      case None
      then have ex: "?ex = []"
        by (simp add: ledger_text_def existing_files_of_Nil)
      from l ex have l': "todo_loop K [] files [] w = (items, w1)" by simp
      show ?thesis
      proof (cases "items = []")
        case True
        with ne None l' lt1 show ?thesis by (simp add: add_files_to_todo_def)
      next
        case i: False
        show ?thesis
        proof (cases "rules_dir_exists w")
          case True
          with None fr obtain w2 where ap: "append_text (todo_file_path K) ?txt w1 = Some w2"
            by (simp add: append_text_def)
          with ne None l' i have "add_files_to_todo K files w = w2"
            by (simp add: add_files_to_todo_def)
          with ledger_text_append [OF ap] lt1 i None True show ?thesis by simp
        next
          case False
          with None fr have "append_text (todo_file_path K) ?txt w1 = None"
            by (simp add: append_text_def)
          with ne None l' i have "add_files_to_todo K files w = w1"
            by (simp add: add_files_to_todo_def)
          with lt1 None False show ?thesis by simp
        qed
      qed
    next
      case (Some f)
      then have ex: "?ex = existing_files_of (content f)"
        by (simp add: ledger_text_def)
      show ?thesis
      proof (cases "readable f")
        case False
        with ne Some show ?thesis by (simp add: add_files_to_todo_def)
      next
        case rd: True
        from l ex have l': "todo_loop K (existing_files_of (content f)) files [] w = (items, w1)"
          by simp
        show ?thesis
        proof (cases "items = []")
          case True
          with ne Some rd l' lt1 show ?thesis by (simp add: add_files_to_todo_def)
        next
          case i: False
          show ?thesis
          proof (cases "writable f")
            case True
            with Some fr obtain w2 where ap: "append_text (todo_file_path K) ?txt w1 = Some w2"
              by (simp add: append_text_def)
            with ne Some rd l' i have "add_files_to_todo K files w = w2"
              by (simp add: add_files_to_todo_def)
            with ledger_text_append [OF ap] lt1 i Some rd True show ?thesis by simp
          next
            case False
            with Some fr have "append_text (todo_file_path K) ?txt w1 = None"
              by (simp add: append_text_def)
            with ne Some rd l' i have "add_files_to_todo K files w = w1"
              by (simp add: add_files_to_todo_def)
            with lt1 Some False show ?thesis by simp
          qed
        qed
      qed
    qed
  qed
  from goal l show ?thesis by (simp add: Let_def)
qed

lemma todo_loop_item_form:
  "\<forall>item \<in> set (fst (todo_loop K ex files [] w)).
     \<exists>p \<in> set files. \<exists>t. p \<notin> set ex \<and>
       item = p @ ''|'' @ (if get_project_mode w = ''devP'' then ''HIGH'' else ''LOW'') @
              ''|'' @ isoformat K t"
proof (rule todo_loop_invariant)
  show "\<forall>item \<in> set []. \<exists>p \<in> set files. \<exists>t. p \<notin> set ex \<and>
            item = p @ ''|'' @ (if get_project_mode w = ''devP'' then ''HIGH'' else ''LOW'') @
                   ''|'' @ isoformat K t"
    by simp
next
  fix p :: path and wx :: world
  assume p: "p \<in> set files" "p \<notin> set ex" and v: "variables wx = variables w"
  have m: "get_project_mode wx = get_project_mode w"
    by (rule get_project_mode_cong) (rule v)
  show "\<exists>q \<in> set files. \<exists>t. q \<notin> set ex \<and>
            todo_line K wx p =
              q @ ''|'' @ (if get_project_mode w = ''devP'' then ''HIGH'' else ''LOW'') @
                   ''|'' @ isoformat K t"
    unfolding todo_line_def Let_def m using p by blast
qed

text \<open>Without the directory \<open>rules\<close> no ledger is created.\<close>

lemma missing_rules_dir:
  "ledger_text demo_collab
     (add_files_to_todo demo_collab [''/r/n.py''] (dev_world\<lparr>rules_dir_exists := False\<rparr>)) = []"
  by code_simp

text \<open>
  Claim C5 fails on the code. \<open>add_files_to_todo\<close> reads the path of a ledger line
  as the text before the first \<open>|\<close>, and writes the path in front of
  \<open>|PRIORITY|timestamp\<close>. The path \<open>/r/a|b.py\<close> is enqueued at one cycle into an
  empty ledger; the ledger then has the line of that path, which is read back as the
  path \<open>/r/a\<close>; enqueueing \<open>/r/a|b.py\<close> at the next cycle adds a second line for
  it. Within one batch a path that occurs twice gets two lines as well, since the set
  of the paths read from the ledger is not extended while the batch is processed.
\<close>

theorem piped_path_enqueued_twice:
  "ledger_text demo_collab (add_files_to_todo demo_collab [''/r/a|b.py''] dev_world) =
     todo_header @ [CHR 0x0A] @ ''/r/a|b.py|HIGH|2024-01-01T00:00:00'' @ [CHR 0x0A] \<and>
   existing_files_of (ledger_text demo_collab
      (add_files_to_todo demo_collab [''/r/a|b.py''] dev_world)) = [''/r/a''] \<and>
   ledger_text demo_collab
      (add_files_to_todo demo_collab [''/r/a|b.py'']
         (add_files_to_todo demo_collab [''/r/a|b.py''] dev_world)) =
     todo_header @ [CHR 0x0A] @ ''/r/a|b.py|HIGH|2024-01-01T00:00:00'' @ [CHR 0x0A] @
     todo_header @ [CHR 0x0A] @ ''/r/a|b.py|HIGH|2024-01-01T00:00:00'' @ [CHR 0x0A] \<and>
   ledger_text demo_collab
      (add_files_to_todo demo_collab [''/r/x.py'', ''/r/x.py''] dev_world) =
     todo_header @ [CHR 0x0A] @ ''/r/x.py|HIGH|2024-01-01T00:00:00'' @ [CHR 0x0A] @
     ''/r/x.py|HIGH|2024-01-01T00:00:00'' @ [CHR 0x0A]"
  by code_simp

text \<open>Evaluations of the ledger loop on the example states.\<close>

lemma prod_locked_eval:
  "get_project_mode prod_locked_world = ''proD''"
  "check_path_conflicts demo_collab prod_locked_world ''/r/l.py'' = (True, FileLocked ''held'')"
  "map (todo_line demo_collab prod_locked_world)
     (filter (\<lambda>p. p \<notin> set [] \<and> \<not> fst (check_path_conflicts demo_collab prod_locked_world p))
        [''/r/l.py'', ''/r/n.py'']) = [''/r/n.py|LOW|2024-01-01T00:00:00'']"
  "existing_files_of (ledger_text demo_collab prod_locked_world) = []"
  "map_of (tree prod_locked_world) (todo_file_path demo_collab) = None"
  "rules_dir_exists prod_locked_world"
  "ledger_text demo_collab prod_locked_world = []"
  by code_simp+

lemma dev_stale_eval:
  "get_project_mode dev_stale_world = ''devP''"
  "fst (case acquire_file_lock demo_collab ''/r/c.py'' 5
               (log_conflict ''/r/c.py'' (FileLocked ''held'') Pending dev_stale_world) of
          (acquired, w2) \<Rightarrow>
            if acquired then
              todo_loop demo_collab [] []
                ([] @ [''/r/c.py'' @ ''|'' @ ''HIGH'' @ ''|'' @ isoformat demo_collab (clock w2)])
                (log_conflict ''/r/c.py'' (FileLocked ''held'') ForcedWithLock w2)
            else todo_loop demo_collab [] [] []
                   (log_conflict ''/r/c.py'' (FileLocked ''held'') LockFailedSkip w2)) =
     [''/r/c.py|HIGH|2024-01-01T00:00:00'']"
  by code_simp+

lemma ledger_world_batch:
  "\<not> fst (check_path_conflicts demo_collab ledger_world ''/r/d.py'')"
  "\<not> fst (check_path_conflicts demo_collab ledger_world ''/r/n.py'')"
  "map (todo_line demo_collab ledger_world)
     (filter (\<lambda>p. p \<notin> set [''/r/d.py'']) [''/r/d.py'', ''/r/n.py'']) =
       [''/r/n.py|HIGH|2024-01-01T00:00:00'']"
  by code_simp+

text \<open>
  Claim C9, as the code has it. The text of the ledger before an enqueue is a prefix of
  its text after it: prior lines are never rewritten. In every state the text added is
  empty if the loop keeps no item, if the ledger file exists and cannot be read or
  written, or if it is absent and the directory \<open>rules\<close> does not exist; otherwise it
  is the header line followed by one line per item the loop kept, in order: the header
  is written with every such batch, not only with the first. Every item has the form
  \<open>path|PRIORITY|timestamp\<close> for a path of the batch that had no entry, with priority
  \<open>HIGH\<close> in mode \<open>devP\<close> and \<open>LOW\<close> otherwise. Which paths are kept: outside mode
  \<open>devP\<close> exactly the paths without an entry that are not in conflict, one item
  each, in the order of the batch; in any mode, when no path of the batch is in
  conflict, exactly the paths without an entry. Path by path, for every list of entries
  \<open>ex\<close> and every list \<open>acc\<close> of items kept so far: a path with an entry is passed
  over; a path without an entry and not in conflict gets its item; a path without an
  entry and in conflict is passed over outside mode \<open>devP\<close>, with the two records of
  the resolver added to the audit log; in mode \<open>devP\<close> it gets its item, with priority
  \<open>HIGH\<close>, if the resolver's acquisition of its lock succeeds, and is passed over if
  the acquisition fails.
\<close>

theorem add_files_to_todo_appends:
  "prefix (ledger_text K w) (ledger_text K (add_files_to_todo K files w)) \<and>
   ledger_text K (add_files_to_todo K files w) =
     ledger_text K w @
     (let items = fst (todo_loop K (existing_files_of (ledger_text K w)) files [] w)
      in if items = [] \<or>
            \<not> (case map_of (tree w) (todo_file_path K) of
                 None \<Rightarrow> rules_dir_exists w
               | Some f \<Rightarrow> readable f \<and> writable f)
         then []
         else todo_header @ [CHR 0x0A] @ concat (map (\<lambda>item. item @ [CHR 0x0A]) items)) \<and>
   (\<forall>item \<in> set (fst (todo_loop K ex files [] w)).
      \<exists>p \<in> set files. \<exists>t. p \<notin> set ex \<and>
        item = p @ ''|'' @ (if get_project_mode w = ''devP'' then ''HIGH'' else ''LOW'') @
               ''|'' @ isoformat K t) \<and>
   (get_project_mode w \<noteq> ''devP'' \<longrightarrow>
      fst (todo_loop K ex files [] w) =
        map (todo_line K w)
          (filter (\<lambda>p. p \<notin> set ex \<and> \<not> fst (check_path_conflicts K w p)) files)) \<and>
   ((\<forall>p \<in> set files. \<not> fst (check_path_conflicts K w p)) \<longrightarrow>
      fst (todo_loop K ex files [] w) =
        map (todo_line K w) (filter (\<lambda>p. p \<notin> set ex) files)) \<and>
   todo_loop K ex [] acc w = (acc, w) \<and>
   (p \<in> set ex \<longrightarrow> todo_loop K ex (p # fs) acc w = todo_loop K ex fs acc w) \<and>
   (p \<notin> set ex \<and> \<not> fst (check_path_conflicts K w p) \<longrightarrow>
      todo_loop K ex (p # fs) acc w = todo_loop K ex fs (acc @ [todo_line K w p]) w) \<and>
   (p \<notin> set ex \<and> check_path_conflicts K w p = (True, r) \<and> get_project_mode w \<noteq> ''devP'' \<longrightarrow>
      todo_loop K ex (p # fs) acc w =
        todo_loop K ex fs acc (log_conflict p r ProdSkip (log_conflict p r Pending w))) \<and>
   (p \<notin> set ex \<and> check_path_conflicts K w p = (True, r) \<and> get_project_mode w = ''devP'' \<longrightarrow>
      todo_loop K ex (p # fs) acc w =
        (case acquire_file_lock K p 5 (log_conflict p r Pending w) of
           (acquired, w2) \<Rightarrow>
             if acquired then
               todo_loop K ex fs (acc @ [p @ ''|'' @ ''HIGH'' @ ''|'' @ isoformat K (clock w2)])
                 (log_conflict p r ForcedWithLock w2)
             else todo_loop K ex fs acc (log_conflict p r LockFailedSkip w2)))"
proof (intro conjI impI)
  show "prefix (ledger_text K w) (ledger_text K (add_files_to_todo K files w))"
    unfolding add_files_to_todo_text [of K files w] by simp
  show "ledger_text K (add_files_to_todo K files w) =
     ledger_text K w @
     (let items = fst (todo_loop K (existing_files_of (ledger_text K w)) files [] w)
      in if items = [] \<or>
            \<not> (case map_of (tree w) (todo_file_path K) of
                 None \<Rightarrow> rules_dir_exists w
               | Some f \<Rightarrow> readable f \<and> writable f)
         then []
         else todo_header @ [CHR 0x0A] @ concat (map (\<lambda>item. item @ [CHR 0x0A]) items))"
    by (rule add_files_to_todo_text)
  show "\<forall>item \<in> set (fst (todo_loop K ex files [] w)).
      \<exists>p \<in> set files. \<exists>t. p \<notin> set ex \<and>
        item = p @ ''|'' @ (if get_project_mode w = ''devP'' then ''HIGH'' else ''LOW'') @
               ''|'' @ isoformat K t"
    by (rule todo_loop_item_form)
  show "fst (todo_loop K ex files [] w) =
        map (todo_line K w)
          (filter (\<lambda>p. p \<notin> set ex \<and> \<not> fst (check_path_conflicts K w p)) files)"
    if "get_project_mode w \<noteq> ''devP''"
    using todo_loop_non_dev [OF that, of K ex files "[]"] by simp
  show "fst (todo_loop K ex files [] w) =
        map (todo_line K w) (filter (\<lambda>p. p \<notin> set ex) files)"
    if "\<forall>p \<in> set files. \<not> fst (check_path_conflicts K w p)"
    using that by (simp add: todo_loop_no_conflict)
  show "todo_loop K ex [] acc w = (acc, w)"
    by simp
  show "todo_loop K ex (p # fs) acc w = todo_loop K ex fs acc w" if "p \<in> set ex"
    using that by (rule todo_loop_entry)
  show "todo_loop K ex (p # fs) acc w = todo_loop K ex fs (acc @ [todo_line K w p]) w"
    if "p \<notin> set ex \<and> \<not> fst (check_path_conflicts K w p)"
    using that by (simp add: todo_loop_no_entry_no_conflict del: todo_loop.simps)
  show "todo_loop K ex (p # fs) acc w =
        todo_loop K ex fs acc (log_conflict p r ProdSkip (log_conflict p r Pending w))"
    if "p \<notin> set ex \<and> check_path_conflicts K w p = (True, r) \<and> get_project_mode w \<noteq> ''devP''"
    using that todo_loop_non_dev_conflict [of w p ex K r fs acc] by blast
  show "todo_loop K ex (p # fs) acc w =
        (case acquire_file_lock K p 5 (log_conflict p r Pending w) of
           (acquired, w2) \<Rightarrow>
             if acquired then
               todo_loop K ex fs (acc @ [p @ ''|'' @ ''HIGH'' @ ''|'' @ isoformat K (clock w2)])
                 (log_conflict p r ForcedWithLock w2)
             else todo_loop K ex fs acc (log_conflict p r LockFailedSkip w2))"
    if "p \<notin> set ex \<and> check_path_conflicts K w p = (True, r) \<and> get_project_mode w = ''devP''"
    using that todo_loop_dev_conflict [of w p ex K r fs acc] by blast
qed

text \<open>
  Three batches. Mode \<open>proD\<close>, \<open>/r/l.py\<close> locked by another holder and \<open>/r/n.py\<close>
  free: the ledger gets the header and the line of \<open>/r/n.py\<close> with priority
  \<open>LOW\<close>, and \<open>/r/l.py\<close> is passed over. Mode \<open>devP\<close>, the ledger of Scenario D
  and no conflict: \<open>/r/d.py\<close> has an entry and is passed over, \<open>/r/n.py\<close> gets its
  item. Mode \<open>devP\<close> and a stale sentinel for \<open>/r/c.py\<close>: the path is in conflict,
  the resolver takes the lock, and the path gets its item.
\<close>

theorem add_files_to_todo_appends_witness:
  "ledger_text demo_collab
      (add_files_to_todo demo_collab [''/r/l.py'', ''/r/n.py''] prod_locked_world) =
     todo_header @ [CHR 0x0A] @ ''/r/n.py|LOW|2024-01-01T00:00:00'' @ [CHR 0x0A] \<and>
   todo_loop demo_collab [] [''/r/l.py'', ''/r/n.py''] [] prod_locked_world =
     todo_loop demo_collab [] [''/r/n.py''] []
       (log_conflict ''/r/l.py'' (FileLocked ''held'') ProdSkip
          (log_conflict ''/r/l.py'' (FileLocked ''held'') Pending prod_locked_world)) \<and>
   fst (todo_loop demo_collab [''/r/d.py''] [''/r/d.py'', ''/r/n.py''] [] ledger_world) =
     [''/r/n.py|HIGH|2024-01-01T00:00:00''] \<and>
   todo_loop demo_collab [''/r/d.py''] [''/r/d.py'', ''/r/n.py''] [] ledger_world =
     todo_loop demo_collab [''/r/d.py''] [''/r/n.py''] [] ledger_world \<and>
   todo_loop demo_collab [''/r/d.py''] [''/r/n.py''] [] ledger_world =
     todo_loop demo_collab [''/r/d.py''] [] [''/r/n.py|HIGH|2024-01-01T00:00:00''] ledger_world \<and>
   fst (todo_loop demo_collab [] [''/r/c.py''] [] dev_stale_world) =
     [''/r/c.py|HIGH|2024-01-01T00:00:00'']"
proof -
  note a = add_files_to_todo_appends [where K = demo_collab and w = prod_locked_world
             and files = "[''/r/l.py'', ''/r/n.py'']" and ex = "[]" and p = "''/r/l.py''"
             and fs = "[''/r/n.py'']" and acc = "[]" and r = "FileLocked ''held''"]
  note a_text = a [THEN conjunct2, THEN conjunct1]
  note a_non_dev = a [THEN conjunct2, THEN conjunct2, THEN conjunct2, THEN conjunct1]
  note a_skip = a [THEN conjunct2, THEN conjunct2, THEN conjunct2, THEN conjunct2,
                   THEN conjunct2, THEN conjunct2, THEN conjunct2, THEN conjunct2, THEN conjunct1]
  have mode: "get_project_mode prod_locked_world \<noteq> ''devP''"
    by (simp add: prod_locked_eval(1))
  have a_items: "fst (todo_loop demo_collab [] [''/r/l.py'', ''/r/n.py''] [] prod_locked_world) =
                   [''/r/n.py|LOW|2024-01-01T00:00:00'']"
    using a_non_dev [THEN mp, OF mode] prod_locked_eval(3) by (simp del: todo_loop.simps)
  have one: "ledger_text demo_collab
      (add_files_to_todo demo_collab [''/r/l.py'', ''/r/n.py''] prod_locked_world) =
     todo_header @ [CHR 0x0A] @ ''/r/n.py|LOW|2024-01-01T00:00:00'' @ [CHR 0x0A]"
    using a_text a_items prod_locked_eval(4,5,6,7) by (simp del: todo_loop.simps)
  have "''/r/l.py'' \<notin> set [] \<and>
        check_path_conflicts demo_collab prod_locked_world ''/r/l.py'' = (True, FileLocked ''held'') \<and>
        get_project_mode prod_locked_world \<noteq> ''devP''"
    using mode prod_locked_eval(2) by simp
  from a_skip [THEN mp, OF this]
  have two: "todo_loop demo_collab [] [''/r/l.py'', ''/r/n.py''] [] prod_locked_world =
     todo_loop demo_collab [] [''/r/n.py''] []
       (log_conflict ''/r/l.py'' (FileLocked ''held'') ProdSkip
          (log_conflict ''/r/l.py'' (FileLocked ''held'') Pending prod_locked_world))" .
  note b = add_files_to_todo_appends [where K = demo_collab and w = ledger_world
             and files = "[''/r/d.py'', ''/r/n.py'']" and ex = "[''/r/d.py'']"
             and p = "''/r/d.py''" and fs = "[''/r/n.py'']" and acc = "[]"]
  note b_free = b [THEN conjunct2, THEN conjunct2, THEN conjunct2, THEN conjunct2,
                   THEN conjunct1]
  note b_entry = b [THEN conjunct2, THEN conjunct2, THEN conjunct2, THEN conjunct2,
                    THEN conjunct2, THEN conjunct2, THEN conjunct1]
  have free: "\<forall>p \<in> set [''/r/d.py'', ''/r/n.py''].
                \<not> fst (check_path_conflicts demo_collab ledger_world p)"
    using ledger_world_batch(1,2) by simp
  have three: "fst (todo_loop demo_collab [''/r/d.py''] [''/r/d.py'', ''/r/n.py''] [] ledger_world) =
     [''/r/n.py|HIGH|2024-01-01T00:00:00'']"
    using b_free [THEN mp, OF free] ledger_world_batch(3) by (simp del: todo_loop.simps)
  have "''/r/d.py'' \<in> set [''/r/d.py'']" by simp
  from b_entry [THEN mp, OF this]
  have four: "todo_loop demo_collab [''/r/d.py''] [''/r/d.py'', ''/r/n.py''] [] ledger_world =
     todo_loop demo_collab [''/r/d.py''] [''/r/n.py''] [] ledger_world" .
  note d = add_files_to_todo_appends [where K = demo_collab and w = ledger_world
             and files = "[''/r/n.py'']" and ex = "[''/r/d.py'']"
             and p = "''/r/n.py''" and fs = "[]" and acc = "[]"]
  note d_kept = d [THEN conjunct2, THEN conjunct2, THEN conjunct2, THEN conjunct2,
                   THEN conjunct2, THEN conjunct2, THEN conjunct2, THEN conjunct1]
  have "''/r/n.py'' \<notin> set [''/r/d.py''] \<and>
        \<not> fst (check_path_conflicts demo_collab ledger_world ''/r/n.py'')"
    using ledger_world_batch(2) by simp
  from d_kept [THEN mp, OF this] ledger_world_batch(3)
  have six: "todo_loop demo_collab [''/r/d.py''] [''/r/n.py''] [] ledger_world =
     todo_loop demo_collab [''/r/d.py''] [] [''/r/n.py|HIGH|2024-01-01T00:00:00''] ledger_world"
    by (simp del: todo_loop.simps)
  note c = add_files_to_todo_appends [where K = demo_collab and w = dev_stale_world
             and files = "[''/r/c.py'']" and ex = "[]" and p = "''/r/c.py''"
             and fs = "[]" and acc = "[]" and r = "FileLocked ''held''"]
  note c_forced = c [THEN conjunct2, THEN conjunct2, THEN conjunct2, THEN conjunct2,
                     THEN conjunct2, THEN conjunct2, THEN conjunct2, THEN conjunct2,
                     THEN conjunct2]
  have "''/r/c.py'' \<notin> set [] \<and>
        check_path_conflicts demo_collab dev_stale_world ''/r/c.py'' = (True, FileLocked ''held'') \<and>
        get_project_mode dev_stale_world = ''devP''"
    using dev_stale_conflict dev_stale_eval(1) by simp
  from c_forced [THEN mp, OF this] dev_stale_eval(2)
  have five: "fst (todo_loop demo_collab [] [''/r/c.py''] [] dev_stale_world) =
     [''/r/c.py|HIGH|2024-01-01T00:00:00'']"
    by (simp only:)
  from one two three four five six show ?thesis by (simp only: simp_thms)
qed

text \<open>
  Claim C9 as stated fails in its last part: the ledger of Scenario D already begins
  with the header, and the next write adds the header again.
\<close>

theorem header_written_again:
  "ledger_text demo_collab ledger_world =
     todo_header @ [CHR 0x0A] @ ''/r/d.py|HIGH|2024-01-01T00:00:00'' @ [CHR 0x0A] \<and>
   ledger_text demo_collab (add_files_to_todo demo_collab [''/r/n.py''] ledger_world) =
     todo_header @ [CHR 0x0A] @ ''/r/d.py|HIGH|2024-01-01T00:00:00'' @ [CHR 0x0A] @
     todo_header @ [CHR 0x0A] @ ''/r/n.py|HIGH|2024-01-01T00:00:00'' @ [CHR 0x0A]"
  by code_simp

section \<open>Remediation scheduler: what goes to the ledger\<close>

text \<open>
  Claim C8 fails on the code; this is what the code does at one cycle. Both files are
  detected as changed and checked; \<open>/r/a.py\<close> is fixed (one file updated of two
  checked) and is compliant afterwards, \<open>/r/b.py\<close> stays non-compliant. The cycle then
  enqueues both candidates: the ledger gets a line for the fixed file \<open>/r/a.py\<close> too.
\<close>

theorem fixed_file_is_enqueued:
  "fst (check_project_files_changes demo_collab cycle_world) = [''/r/a.py'', ''/r/b.py''] \<and>
   fst (process_files_for_compliance demo_collab [''/r/a.py'', ''/r/b.py''] cycle_world) = (2, 1) \<and>
   map_option content (map_of (tree (run_monitor_cycle demo_collab cycle_world)) ''/r/a.py'') =
     Some (''# header'' @ [CHR 0x0A] @ ''print(1)'') \<and>
   fst (check_file_compliance demo_collab (run_monitor_cycle demo_collab cycle_world) ''/r/a.py'') \<and>
   \<not> fst (check_file_compliance demo_collab (run_monitor_cycle demo_collab cycle_world) ''/r/b.py'') \<and>
   ledger_text demo_collab (run_monitor_cycle demo_collab cycle_world) =
     todo_header @ [CHR 0x0A] @ ''/r/a.py|HIGH|2024-01-01T00:00:00'' @ [CHR 0x0A] @
     ''/r/b.py|HIGH|2024-01-01T00:00:00'' @ [CHR 0x0A]"
  by code_simp

end
